theory Spec2Isabelle
  imports Main "HOL-Library.Sublist"
begin

section \<open>Python values\<close>

text \<open>
  The scraper of \<^verbatim>\<open>pheonix_permit_grab.py\<close> works on whatever \<^verbatim>\<open>response.json()\<close>
  hands back, so the model keeps Python's dynamic typing: a value is \<^verbatim>\<open>None\<close>, a bool,
  an int, a float, a str, a list or a dict with string keys. A str is a list of code
  points below 256. A dict is an association list read with \<open>map_of\<close> (the first
  binding of a key is the one \<^verbatim>\<open>get\<close> sees). A finite float \<open>Finite m e\<close> stands for
  \<open>m * 2 ^ e\<close>; only its sign and its order against integers are ever inspected.
\<close>

datatype py_error = AttributeError | TypeError | ValueError | OverflowError | OSError

datatype pyfloat = Finite int int | PosInf | NegInf | NaN

datatype pyval =
    PNone
  | PBool bool
  | PInt int
  | PFloat pyfloat
  | PStr string
  | PList "pyval list"
  | PDict "(string \<times> pyval) list"

type_synonym pydict = "(string \<times> pyval) list"

text \<open>Truth value testing (\<^verbatim>\<open>not x\<close>, \<^verbatim>\<open>if x:\<close>).\<close>

fun float_nonzero :: "pyfloat \<Rightarrow> bool" where
  "float_nonzero (Finite m e) = (m \<noteq> 0)"
| "float_nonzero PosInf = True"
| "float_nonzero NegInf = True"
| "float_nonzero NaN = True"

fun truthy :: "pyval \<Rightarrow> bool" where
  "truthy PNone = False"
| "truthy (PBool b) = b"
| "truthy (PInt i) = (i \<noteq> 0)"
| "truthy (PFloat f) = float_nonzero f"
| "truthy (PStr s) = (s \<noteq> [])"
| "truthy (PList xs) = (xs \<noteq> [])"
| "truthy (PDict d) = (d \<noteq> [])"

text \<open>\<^verbatim>\<open>d.get(k, default)\<close> on a dict.\<close>

definition dict_get :: "pydict \<Rightarrow> string \<Rightarrow> pyval \<Rightarrow> pyval" where
  "dict_get d k dflt = (case map_of d k of None \<Rightarrow> dflt | Some v \<Rightarrow> v)"

text \<open>Exact comparison of a float with an integer: \<open>f \<le> n\<close> and \<open>n < f\<close>.\<close>

fun float_le_int :: "pyfloat \<Rightarrow> int \<Rightarrow> bool" where
  "float_le_int (Finite m e) n =
     (if 0 \<le> e then m * 2 ^ nat e \<le> n else m \<le> n * 2 ^ nat (- e))"
| "float_le_int PosInf n = False"
| "float_le_int NegInf n = True"
| "float_le_int NaN n = False"

fun int_lt_float :: "int \<Rightarrow> pyfloat \<Rightarrow> bool" where
  "int_lt_float n (Finite m e) =
     (if 0 \<le> e then n < m * 2 ^ nat e else n * 2 ^ nat (- e) < m)"
| "int_lt_float n PosInf = True"
| "int_lt_float n NegInf = False"
| "int_lt_float n NaN = False"

text \<open>\<^verbatim>\<open>v == 0\<close>: never raises; a bool counts as 0 or 1.\<close>

fun py_eq_zero :: "pyval \<Rightarrow> bool" where
  "py_eq_zero (PInt i) = (i = 0)"
| "py_eq_zero (PBool b) = (\<not> b)"
| "py_eq_zero (PFloat f) = (\<not> float_nonzero f)"
| "py_eq_zero v = False"

text \<open>\<^verbatim>\<open>v > 0\<close>: a TypeError unless \<open>v\<close> is a number.\<close>

fun py_gt_zero :: "pyval \<Rightarrow> py_error + bool" where
  "py_gt_zero (PInt i) = Inr (0 < i)"
| "py_gt_zero (PBool b) = Inr b"
| "py_gt_zero (PFloat f) = Inr (int_lt_float 0 f)"
| "py_gt_zero v = Inl TypeError"

text \<open>\<^verbatim>\<open>n >= v\<close> for an int \<open>n\<close>: a TypeError unless \<open>v\<close> is a number.\<close>

fun int_ge_py :: "int \<Rightarrow> pyval \<Rightarrow> py_error + bool" where
  "int_ge_py n (PInt i) = Inr (i \<le> n)"
| "int_ge_py n (PBool b) = Inr ((if b then 1 else 0) \<le> n)"
| "int_ge_py n (PFloat f) = Inr (float_le_int f n)"
| "int_ge_py n v = Inl TypeError"

text \<open>\<^verbatim>\<open>for x in v\<close>: the items visited, or a TypeError when \<open>v\<close> is not iterable.
  A str yields its characters, a dict its keys.\<close>

fun py_iter :: "pyval \<Rightarrow> py_error + pyval list" where
  "py_iter (PList xs) = Inr xs"
| "py_iter (PStr s) = Inr (map (\<lambda>c. PStr [c]) s)"
| "py_iter (PDict d) = Inr (map (\<lambda>kv. PStr (fst kv)) d)"
| "py_iter v = Inl TypeError"

text \<open>\<^verbatim>\<open>len(v)\<close>.\<close>

fun py_len :: "pyval \<Rightarrow> py_error + int" where
  "py_len (PList xs) = Inr (int (length xs))"
| "py_len (PStr s) = Inr (int (length s))"
| "py_len (PDict d) = Inr (int (length d))"
| "py_len v = Inl TypeError"

section \<open>Strings: \<^verbatim>\<open>str.strip(chars)\<close> and \<^verbatim>\<open>int(str)\<close>\<close>

text \<open>\<^verbatim>\<open>s.strip(chars)\<close> removes from both ends every character that occurs in \<open>chars\<close>.\<close>

definition py_strip :: "string \<Rightarrow> string \<Rightarrow> string" where
  "py_strip chars s =
     rev (dropWhile (\<lambda>c. c \<in> set chars) (rev (dropWhile (\<lambda>c. c \<in> set chars) s)))"

text \<open>
  \<^verbatim>\<open>int(s)\<close> in base 10: surrounding whitespace is skipped (tab, LF, VT, FF, CR, space,
  and NEL and NBSP, which are turned into spaces first), then comes an optional sign and
  decimal digits, single underscores allowed between two digits. Everything else is a
  ValueError, as is a literal of more digits than the interpreter's limit
  (\<^verbatim>\<open>sys.get_int_max_str_digits()\<close>, 0 for no limit).
\<close>

definition int_space :: "char \<Rightarrow> bool" where
  "int_space c = (of_char c \<in> {9, 10, 11, 12, 13, 32, 133, 160 :: nat})"

definition is_digit :: "char \<Rightarrow> bool" where
  "is_digit c = (48 \<le> (of_char c :: nat) \<and> (of_char c :: nat) \<le> 57)"

definition digit_val :: "char \<Rightarrow> int" where
  "digit_val c = int (of_char c) - 48"

fun digits_acc :: "int \<Rightarrow> string \<Rightarrow> int option" where
  "digits_acc a [] = Some a"
| "digits_acc a (c # cs) =
     (if is_digit c then digits_acc (10 * a + digit_val c) cs
      else if c = CHR ''_'' then
        (case cs of
           [] \<Rightarrow> None
         | d # ds \<Rightarrow> if is_digit d then digits_acc (10 * a + digit_val d) ds else None)
      else None)"

definition py_digits :: "string \<Rightarrow> int option" where
  "py_digits s =
     (case s of
        [] \<Rightarrow> None
      | c # cs \<Rightarrow> if is_digit c then digits_acc (digit_val c) cs else None)"

definition py_int :: "nat \<Rightarrow> string \<Rightarrow> py_error + int" where
  "py_int max_str_digits s =
     (let t = rev (dropWhile int_space (rev (dropWhile int_space s)));
          negative = (case t of c # _ \<Rightarrow> c = CHR ''-'' | [] \<Rightarrow> False);
          body = (case t of c # r \<Rightarrow> if c = CHR ''+'' \<or> c = CHR ''-'' then r else t | [] \<Rightarrow> t)
      in case py_digits body of
           None \<Rightarrow> Inl ValueError
         | Some n \<Rightarrow>
             if 0 < max_str_digits \<and> max_str_digits < length (filter is_digit body)
             then Inl ValueError
             else Inr (if negative then - n else n))"

text \<open>
  \<^verbatim>\<open>a / 1000\<close> on an int is a correctly rounded float; it raises OverflowError when the
  quotient rounds to \<open>2 ^ 1024\<close> or beyond.
\<close>

definition true_div_1000_overflows :: "int \<Rightarrow> bool" where
  "true_div_1000_overflows a = (1000 * (2 ^ 1024 - 2 ^ 970) \<le> \<bar>a\<bar>)"

section \<open>The host environment\<close>

text \<open>
  What the interpreter and the platform decide, taken as parameters: the digit limit of
  \<^verbatim>\<open>int\<close>, and \<^verbatim>\<open>datetime.fromtimestamp(ms / 1000).strftime('%Y-%m-%d')\<close> as a function
  of the integer \<open>ms\<close> (the float is determined by \<open>ms\<close>; the result depends on the local
  time zone, and the call raises ValueError, OverflowError or OSError outside the
  platform's range).
\<close>

record py_env =
  int_max_str_digits :: nat
  local_date :: "int \<Rightarrow> py_error + string"

section \<open>The record normalizer\<close>

text \<open>The body of the \<^verbatim>\<open>try\<close> block of \<^verbatim>\<open>_parse_date\<close> (lines 66 to 68).\<close>

definition parse_date_try :: "py_env \<Rightarrow> string \<Rightarrow> py_error + string" where
  "parse_date_try env date_string =
     (case py_int (int_max_str_digits env) (py_strip ''/Date()'' date_string) of
        Inl e \<Rightarrow> Inl e
      | Inr timestamp_ms \<Rightarrow>
          if true_div_1000_overflows timestamp_ms then Inl OverflowError
          else local_date env timestamp_ms)"

text \<open>
  \<^verbatim>\<open>_parse_date\<close> (lines 53 to 71). The guard of line 63 calls \<^verbatim>\<open>startswith\<close> on any
  truthy argument, outside the \<^verbatim>\<open>try\<close>; only a str has that method. The handler of
  line 69 catches ValueError and TypeError and nothing else.
\<close>

definition parse_date :: "py_env \<Rightarrow> pyval \<Rightarrow> py_error + pyval" where
  "parse_date env date_string =
     (if \<not> truthy date_string then Inr PNone
      else case date_string of
        PStr s \<Rightarrow>
          if \<not> prefix ''/Date('' s then Inr PNone
          else (case parse_date_try env s of
                  Inr formatted \<Rightarrow> Inr (PStr formatted)
                | Inl e \<Rightarrow> if e = ValueError \<or> e = TypeError then Inr PNone else Inl e)
      | _ \<Rightarrow> Inl AttributeError)"

text \<open>
  \<^verbatim>\<open>_process_permit_data\<close> (lines 73 to 103): \<^verbatim>\<open>None\<close> is \<open>Inr None\<close>, the dict literal
  of lines 95 to 103 is the association list in the order written. The date is decoded
  on line 87, before the validation of line 92.
\<close>

definition process_permit_data :: "py_env \<Rightarrow> pyval \<Rightarrow> py_error + pydict option" where
  "process_permit_data env permit_json =
     (case permit_json of
        PDict d \<Rightarrow>
          (let permit_number = dict_get d ''TypeNumber'' PNone;
               address = dict_get d ''PermitAddress'' PNone;
               contractor = dict_get d ''ProfessionalName'' PNone;
               issued_date_raw = dict_get d ''IssuedDate'' PNone
           in case parse_date env issued_date_raw of
                Inl e \<Rightarrow> Inl e
              | Inr issued_date \<Rightarrow>
                  (let permit_type = dict_get d ''PermitType'' PNone;
                       status = dict_get d ''Status'' PNone
                   in if \<not> truthy permit_number \<or> \<not> truthy address then Inr None
                      else Inr (Some
                        [(''permit_number'', permit_number),
                         (''address'', address),
                         (''contractor'', contractor),
                         (''issued_date'', issued_date),
                         (''permit_type'', permit_type),
                         (''status'', status)])))
      | _ \<Rightarrow> Inl AttributeError)"

section \<open>The paginated fetcher\<close>

text \<open>
  A form field of the request payload is a str or an int. The session's \<^verbatim>\<open>post\<close> either
  fails in transport or delivers a status code with a body, whose JSON decoding is a value
  or fails. One fetch run leaves a trace of the requests issued and of the pauses taken.
  Diagnostic printing is left out.
\<close>

datatype form_value = FStr string | FInt int

type_synonym payload = "(string \<times> form_value) list"

datatype http_response = TransportFailure | HttpResponse nat "pyval option"

datatype event = Request payload | Sleep int

record scraper =
  page_size :: int
  session_post :: "payload \<Rightarrow> http_response"

text \<open>
  \<^verbatim>\<open>_make_request\<close> (lines 31 to 51): every exception of \<^verbatim>\<open>post\<close>, of
  \<^verbatim>\<open>raise_for_status\<close> (status 400 to 599) and of \<^verbatim>\<open>json\<close> ends in \<^verbatim>\<open>return None\<close>.
  A body that decodes to \<^verbatim>\<open>null\<close> is returned as \<^verbatim>\<open>None\<close> too.
\<close>

definition make_request :: "scraper \<Rightarrow> payload \<Rightarrow> pyval" where
  "make_request self payload =
     (case session_post self payload of
        TransportFailure \<Rightarrow> PNone
      | HttpResponse status_code body \<Rightarrow>
          if 400 \<le> status_code \<and> status_code < 600 then PNone
          else (case body of None \<Rightarrow> PNone | Some v \<Rightarrow> v))"

text \<open>The payload of lines 125 to 145.\<close>

definition build_payload :: "scraper \<Rightarrow> string \<Rightarrow> string \<Rightarrow> int \<Rightarrow> payload" where
  "build_payload self start_date_str end_date_str current_page =
     [(''sort'', FStr ''''),
      (''page'', FInt current_page),
      (''pageSize'', FInt (page_size self)),
      (''group'', FStr ''''),
      (''filter'', FStr ''''),
      (''PermitType'', FStr ''''),
      (''PermitNumber'', FStr ''''),
      (''TempPermit'', FStr ''Y''),
      (''AddrNumber'', FStr ''''),
      (''AddrDirection'', FStr ''''),
      (''AddrStreet'', FStr ''''),
      (''AddrType'', FStr ''''),
      (''ProfName'', FStr ''''),
      (''ProfStateLicense'', FStr ''''),
      (''ProjectNumber'', FStr ''''),
      (''ProjectName'', FStr ''''),
      (''SolarGreenAdaptive'', FStr ''solar''),
      (''SolarGreenAdaptiveStartDate'', FStr start_date_str),
      (''SolarGreenAdaptiveEndDate'', FStr end_date_str)]"

text \<open>
  The \<^verbatim>\<open>for\<close> loop of lines 171 to 175 over the items of one page: a processed record is
  appended when it is truthy (not \<^verbatim>\<open>None\<close> and not an empty dict); an exception of the
  normalizer leaves the loop.
\<close>

fun process_page :: "py_env \<Rightarrow> pyval list \<Rightarrow> pydict list \<Rightarrow> py_error + pydict list" where
  "process_page env [] all_permits = Inr all_permits"
| "process_page env (permit_json # rest) all_permits =
     (case process_permit_data env permit_json of
        Inl e \<Rightarrow> Inl e
      | Inr None \<Rightarrow> process_page env rest all_permits
      | Inr (Some processed) \<Rightarrow>
          if processed \<noteq> [] then process_page env rest (all_permits @ [processed])
          else process_page env rest all_permits)"

text \<open>
  Lines 159 to 167, taken when \<^verbatim>\<open>current_page == 1\<close>: the total is read from the
  envelope, and the loop is left when it equals 0, or when it is positive and the page is
  empty.
\<close>

datatype 'a flow = Raise py_error | BreakLoop | Proceed 'a

definition first_page_total :: "pydict \<Rightarrow> pyval \<Rightarrow> pyval flow" where
  "first_page_total response_data permit_list_json =
     (let total_records = dict_get response_data ''Total'' (PInt 0)
      in if py_eq_zero total_records then BreakLoop
         else (case py_gt_zero total_records of
                 Inl e \<Rightarrow> Raise e
               | Inr positive \<Rightarrow>
                   if positive \<and> \<not> truthy permit_list_json then BreakLoop
                   else Proceed total_records))"

text \<open>The condition of line 181; \<^verbatim>\<open>or\<close> evaluates its right operand only when the left
  one is false.\<close>

definition reached_end :: "scraper \<Rightarrow> pydict list \<Rightarrow> pyval \<Rightarrow> pyval \<Rightarrow> py_error + bool" where
  "reached_end self all_permits total_records permit_list_json =
     (case int_ge_py (int (length all_permits)) total_records of
        Inl e \<Rightarrow> Inl e
      | Inr True \<Rightarrow> Inr True
      | Inr False \<Rightarrow>
          (case py_len permit_list_json of
             Inl e \<Rightarrow> Inl e
           | Inr n \<Rightarrow> Inr (n < page_size self)))"

text \<open>
  The state of the \<^verbatim>\<open>while True\<close> loop (lines 117 to 119) together with the trace. One
  pass through the loop body (lines 124 to 188) either leaves the call, with the list
  returned on line 191 or with the exception that escapes, or hands the next state to the
  loop. \<^verbatim>\<open>time.sleep\<close> raises ValueError on a negative argument.
\<close>

record fetch_state =
  all_permits :: "pydict list"
  current_page :: int
  total_records :: pyval
  events :: "event list"

type_synonym fetch_result = "event list \<times> (py_error + pydict list)"

datatype loop_step = Done fetch_result | Next fetch_state

definition loop_body ::
  "py_env \<Rightarrow> scraper \<Rightarrow> string \<Rightarrow> string \<Rightarrow> int \<Rightarrow> fetch_state \<Rightarrow> loop_step" where
  "loop_body env self start_date_str end_date_str delay_seconds st =
     (let payload = build_payload self start_date_str end_date_str (current_page st);
          evs = events st @ [Request payload];
          response_data = make_request self payload
      in if response_data = PNone then Done (evs, Inr (all_permits st))
         else case response_data of
           PDict d \<Rightarrow>
             (let permit_list_json = dict_get d ''Data'' (PList [])
              in if \<not> truthy permit_list_json \<and> 1 < current_page st
                 then Done (evs, Inr (all_permits st))
                 else
                   (case (if current_page st = 1 then first_page_total d permit_list_json
                          else Proceed (total_records st)) of
                      Raise e \<Rightarrow> Done (evs, Inl e)
                    | BreakLoop \<Rightarrow> Done (evs, Inr (all_permits st))
                    | Proceed reported \<Rightarrow>
                        (case py_iter permit_list_json of
                           Inl e \<Rightarrow> Done (evs, Inl e)
                         | Inr items \<Rightarrow>
                             (case process_page env items (all_permits st) of
                                Inl e \<Rightarrow> Done (evs, Inl e)
                              | Inr permits \<Rightarrow>
                                  (case reached_end self permits reported permit_list_json of
                                     Inl e \<Rightarrow> Done (evs, Inl e)
                                   | Inr True \<Rightarrow> Done (evs, Inr permits)
                                   | Inr False \<Rightarrow>
                                       if delay_seconds < 0 then Done (evs, Inl ValueError)
                                       else Next \<lparr>all_permits = permits,
                                                  current_page = current_page st + 1,
                                                  total_records = reported,
                                                  events = evs @ [Sleep delay_seconds]\<rparr>)))))
         | _ \<Rightarrow> Done (evs, Inl AttributeError))"

text \<open>The loop may run forever (a server that keeps sending full pages); \<open>None\<close> is the
  run that never returns.\<close>

partial_function (option) fetch_loop ::
  "py_env \<Rightarrow> scraper \<Rightarrow> string \<Rightarrow> string \<Rightarrow> int \<Rightarrow> fetch_state \<Rightarrow> fetch_result option" where
  "fetch_loop env self start_date_str end_date_str delay_seconds st =
     (case loop_body env self start_date_str end_date_str delay_seconds st of
        Done r \<Rightarrow> Some r
      | Next st' \<Rightarrow> fetch_loop env self start_date_str end_date_str delay_seconds st')"

declare fetch_loop.simps [code]

definition initial_state :: fetch_state where
  "initial_state = \<lparr>all_permits = [], current_page = 1, total_records = PInt 0, events = []\<rparr>"

definition fetch_permits_for_date_range ::
  "py_env \<Rightarrow> scraper \<Rightarrow> string \<Rightarrow> string \<Rightarrow> int \<Rightarrow> fetch_result option" where
  "fetch_permits_for_date_range env self start_date_str end_date_str delay_seconds =
     fetch_loop env self start_date_str end_date_str delay_seconds initial_state"

section \<open>The tabular sink\<close>

text \<open>
  \<^verbatim>\<open>save_to_csv\<close> (lines 193 to 219), without the file system: nothing is written for an
  empty list; otherwise the header is the key list of the first record, and
  \<^verbatim>\<open>csv.DictWriter\<close> turns each record into one cell per header field (\<^verbatim>\<open>''\<close> for a
  missing key) and raises ValueError on a record with a key outside the header, which the
  handler of line 218 reports.
\<close>

datatype csv_outcome = NoData | Written "string list" "pyval list list" | WriteFailed

definition dict_to_list :: "string list \<Rightarrow> pydict \<Rightarrow> pyval list option" where
  "dict_to_list fieldnames rowdict =
     (if \<exists>k \<in> set (map fst rowdict). k \<notin> set fieldnames then None
      else Some (map (\<lambda>k. dict_get rowdict k (PStr '''')) fieldnames))"

fun writerows :: "string list \<Rightarrow> pydict list \<Rightarrow> pyval list list option" where
  "writerows fieldnames [] = Some []"
| "writerows fieldnames (rowdict # rest) =
     (case dict_to_list fieldnames rowdict of
        None \<Rightarrow> None
      | Some row \<Rightarrow>
          (case writerows fieldnames rest of None \<Rightarrow> None | Some rows \<Rightarrow> Some (row # rows)))"

definition save_to_csv :: "pydict list \<Rightarrow> csv_outcome" where
  "save_to_csv data =
     (case data of
        [] \<Rightarrow> NoData
      | first # _ \<Rightarrow>
          (let fieldnames = map fst first
           in case writerows fieldnames data of
                None \<Rightarrow> WriteFailed
              | Some rows \<Rightarrow> Written fieldnames rows))"

section \<open>A reference host\<close>

text \<open>
  For concrete runs: a host in the UTC time zone with CPython's default digit limit. The
  day number \<open>ms div 86400000\<close> is turned into a civil date of the proleptic Gregorian
  calendar; years outside 1 to 9999 are a ValueError.
\<close>

definition civil_from_days :: "int \<Rightarrow> int \<times> int \<times> int" where
  "civil_from_days days =
     (let z = days + 719468;
          era = z div 146097;
          doe = z mod 146097;
          yoe = (doe - doe div 1460 + doe div 36524 - doe div 146096) div 365;
          doy = doe - (365 * yoe + yoe div 4 - yoe div 100);
          mp = (5 * doy + 2) div 153;
          d = doy - (153 * mp + 2) div 5 + 1;
          m = (if mp < 10 then mp + 3 else mp - 9);
          y = yoe + era * 400 + (if m \<le> 2 then 1 else 0)
      in (y, m, d))"

definition digit_char :: "int \<Rightarrow> char" where
  "digit_char d = ''0123456789'' ! nat d"

definition two_digits :: "int \<Rightarrow> string" where
  "two_digits n = [digit_char (n div 10 mod 10), digit_char (n mod 10)]"

definition utc_local_date :: "int \<Rightarrow> py_error + string" where
  "utc_local_date ms =
     (case civil_from_days (ms div 86400000) of
        (y, m, d) \<Rightarrow>
          if 1 \<le> y \<and> y \<le> 9999
          then Inr (two_digits (y div 100) @ two_digits (y mod 100) @ ''-'' @ two_digits m
                    @ ''-'' @ two_digits d)
          else Inl ValueError)"

definition utc_host :: py_env where
  "utc_host = \<lparr>int_max_str_digits = 4300, local_date = utc_local_date\<rparr>"

section \<open>Observing a run\<close>

text \<open>The payloads of the requests in a trace, in the order issued.\<close>

fun requests :: "event list \<Rightarrow> payload list" where
  "requests [] = []"
| "requests (Request p # evs) = p # requests evs"
| "requests (Sleep d # evs) = requests evs"

text \<open>
  \<open>run_pages \<dots> k\<close> is the loop state after \<open>k\<close> passes through the loop body none of
  which left the loop: pages 1 to \<open>k\<close> were fetched and processed and page \<open>k + 1\<close> is
  due. It is \<open>None\<close> when the loop ended earlier.
\<close>

fun run_pages ::
  "py_env \<Rightarrow> scraper \<Rightarrow> string \<Rightarrow> string \<Rightarrow> int \<Rightarrow> nat \<Rightarrow> fetch_state option" where
  "run_pages env self start_date_str end_date_str delay_seconds 0 = Some initial_state"
| "run_pages env self start_date_str end_date_str delay_seconds (Suc k) =
     (case run_pages env self start_date_str end_date_str delay_seconds k of
        None \<Rightarrow> None
      | Some st \<Rightarrow>
          (case loop_body env self start_date_str end_date_str delay_seconds st of
             Done r \<Rightarrow> None
           | Next st' \<Rightarrow> Some st'))"

text \<open>The normalized records of page \<open>i\<close> alone: what the loop of lines 171 to 175 appends
  for the response to the request for page \<open>i\<close>.\<close>

definition page_permits ::
  "py_env \<Rightarrow> scraper \<Rightarrow> string \<Rightarrow> string \<Rightarrow> int \<Rightarrow> pydict list" where
  "page_permits env self start_date_str end_date_str i =
     (case make_request self (build_payload self start_date_str end_date_str i) of
        PDict d \<Rightarrow>
          (case py_iter (dict_get d ''Data'' (PList [])) of
             Inl e \<Rightarrow> []
           | Inr items \<Rightarrow>
               (case process_page env items [] of Inl e \<Rightarrow> [] | Inr permits \<Rightarrow> permits))
      | _ \<Rightarrow> [])"

text \<open>The keys of the dict literal of lines 95 to 103.\<close>

definition record_keys :: "string list" where
  "record_keys =
     [''permit_number'', ''address'', ''contractor'', ''issued_date'', ''permit_type'',
      ''status'']"

text \<open>Two responses that agree on everything the loop reads from the envelope of a page
  after the first: both are the same value, or both are dicts with the same \<^verbatim>\<open>Data\<close>.\<close>

fun same_but_total :: "pyval \<Rightarrow> pyval \<Rightarrow> bool" where
  "same_but_total (PDict d1) (PDict d2) = (map_of d1 ''Data'' = map_of d2 ''Data'')"
| "same_but_total r1 r2 = (r1 = r2)"

text \<open>The number a string of decimal digits denotes.\<close>

definition dec_value :: "string \<Rightarrow> int" where
  "dec_value ds = foldl (\<lambda>a c. 10 * a + digit_val c) 0 ds"

text \<open>The three ways a page fetch fails in \<^verbatim>\<open>_make_request\<close>: transport failure,
  a status that \<^verbatim>\<open>raise_for_status\<close> rejects, a body that is not JSON.\<close>

fun page_fetch_failed :: "http_response \<Rightarrow> bool" where
  "page_fetch_failed TransportFailure = True"
| "page_fetch_failed (HttpResponse status_code body) =
     ((400 \<le> status_code \<and> status_code < 600) \<or> body = None)"

text \<open>
  What the request for page \<open>n\<close> has to carry: the two fixed filter values, the page
  index, the page size, the two dates, the empty string in the thirteen other fields,
  and no further field.
\<close>

definition request_fields :: "scraper \<Rightarrow> string \<Rightarrow> string \<Rightarrow> int \<Rightarrow> payload \<Rightarrow> bool" where
  "request_fields self start_date_str end_date_str n p =
     (map_of p ''TempPermit'' = Some (FStr ''Y'')
      \<and> map_of p ''SolarGreenAdaptive'' = Some (FStr ''solar'')
      \<and> map_of p ''page'' = Some (FInt n)
      \<and> map_of p ''pageSize'' = Some (FInt (page_size self))
      \<and> map_of p ''SolarGreenAdaptiveStartDate'' = Some (FStr start_date_str)
      \<and> map_of p ''SolarGreenAdaptiveEndDate'' = Some (FStr end_date_str)
      \<and> (\<forall>k \<in> set [''sort'', ''group'', ''filter'', ''PermitType'', ''PermitNumber'',
                     ''AddrNumber'', ''AddrDirection'', ''AddrStreet'', ''AddrType'',
                     ''ProfName'', ''ProfStateLicense'', ''ProjectNumber'', ''ProjectName''].
            map_of p k = Some (FStr ''''))
      \<and> map fst p =
           [''sort'', ''page'', ''pageSize'', ''group'', ''filter'', ''PermitType'',
            ''PermitNumber'', ''TempPermit'', ''AddrNumber'', ''AddrDirection'', ''AddrStreet'',
            ''AddrType'', ''ProfName'', ''ProfStateLicense'', ''ProjectNumber'',
            ''ProjectName'', ''SolarGreenAdaptive'', ''SolarGreenAdaptiveStartDate'',
            ''SolarGreenAdaptiveEndDate''])"

section \<open>Sample servers\<close>

text \<open>A server that answers by page index, and the envelope of a successful answer.\<close>

definition paged_server :: "int \<Rightarrow> (int \<Rightarrow> http_response) \<Rightarrow> scraper" where
  "paged_server n pages =
     \<lparr>page_size = n,
      session_post =
        (\<lambda>payload. case map_of payload ''page'' of
                      Some (FInt i) \<Rightarrow> pages i
                    | _ \<Rightarrow> TransportFailure)\<rparr>"

definition envelope :: "pyval list \<Rightarrow> pyval \<Rightarrow> http_response" where
  "envelope data reported =
     HttpResponse 200 (Some (PDict [(''Data'', PList data), (''Total'', reported)]))"

definition permit_a :: pyval where
  "permit_a =
     PDict [(''TypeNumber'', PStr ''RPV 24001''),
            (''PermitAddress'', PStr ''200 W WASHINGTON ST''),
            (''ProfessionalName'', PStr ''SUN CO''),
            (''IssuedDate'', PStr ''/Date(1700000000000)/''),
            (''PermitType'', PStr ''RPV''),
            (''Status'', PStr ''OPEN'')]"

definition permit_b :: pyval where
  "permit_b =
     PDict [(''TypeNumber'', PStr ''RPV 24002''),
            (''PermitAddress'', PStr ''17 N 1ST AVE''),
            (''IssuedDate'', PStr ''garbage''),
            (''Status'', PStr ''DONE'')]"

definition permit_c :: pyval where
  "permit_c =
     PDict [(''TypeNumber'', PStr ''RPV 24003''),
            (''PermitAddress'', PStr ''5 E VAN BUREN ST''),
            (''IssuedDate'', PStr ''/Date(abc)/'')]"

definition record_a :: pydict where
  "record_a =
     [(''permit_number'', PStr ''RPV 24001''),
      (''address'', PStr ''200 W WASHINGTON ST''),
      (''contractor'', PStr ''SUN CO''),
      (''issued_date'', PStr ''2023-11-14''),
      (''permit_type'', PStr ''RPV''),
      (''status'', PStr ''OPEN'')]"

definition record_b :: pydict where
  "record_b =
     [(''permit_number'', PStr ''RPV 24002''),
      (''address'', PStr ''17 N 1ST AVE''),
      (''contractor'', PNone),
      (''issued_date'', PNone),
      (''permit_type'', PNone),
      (''status'', PStr ''DONE'')]"

definition record_c :: pydict where
  "record_c =
     [(''permit_number'', PStr ''RPV 24003''),
      (''address'', PStr ''5 E VAN BUREN ST''),
      (''contractor'', PNone),
      (''issued_date'', PNone),
      (''permit_type'', PNone),
      (''status'', PNone)]"

text \<open>Two pages of size 2 holding three permits; the second envelope reports another total.\<close>

definition two_page_server :: scraper where
  "two_page_server =
     paged_server 2
       (\<lambda>i. if i = 1 then envelope [permit_a, permit_b] (PInt 3)
            else if i = 2 then envelope [permit_c] (PInt 7)
            else envelope [] (PInt 3))"

text \<open>The same first page, then a transport failure.\<close>

definition failing_server :: scraper where
  "failing_server =
     paged_server 2
       (\<lambda>i. if i = 1 then envelope [permit_a, permit_b] (PInt 3) else TransportFailure)"

text \<open>A date range without permits.\<close>

definition empty_server :: scraper where
  "empty_server = paged_server 50 (\<lambda>i. envelope [] (PInt 0))"

text \<open>One full page that is all there is.\<close>

definition exact_server :: scraper where
  "exact_server = paged_server 2 (\<lambda>i. envelope [permit_a, permit_b] (PInt 2))"

text \<open>One full page whose only record lacks the required fields, then a failure.\<close>

definition rejecting_server :: scraper where
  "rejecting_server =
     paged_server 1 (\<lambda>i. if i = 1 then envelope [PDict []] (PInt 1) else TransportFailure)"

text \<open>The two-page server again, its second envelope now with a \<^verbatim>\<open>Total\<close> that is not
  even a number.\<close>

definition two_page_server_alt :: scraper where
  "two_page_server_alt =
     paged_server 2
       (\<lambda>i. if i = 1 then envelope [permit_a, permit_b] (PInt 3)
            else if i = 2 then envelope [permit_c] (PStr ''n/a'')
            else envelope [] (PInt 3))"

section \<open>Stepping through the loop\<close>

lemma fetch_loop_Done:
  "loop_body env self s e delay st = Done r \<Longrightarrow> fetch_loop env self s e delay st = Some r"
  by (subst fetch_loop.simps) simp

lemma fetch_loop_Next:
  "loop_body env self s e delay st = Next st' \<Longrightarrow>
   fetch_loop env self s e delay st = fetch_loop env self s e delay st'"
  by (subst fetch_loop.simps) simp

lemma loop_body_Done_events:
  "loop_body env self s e delay st = Done (evs, r) \<Longrightarrow>
   evs = events st @ [Request (build_payload self s e (current_page st))]"
  by (auto simp: loop_body_def Let_def
           split: if_splits pyval.splits flow.splits sum.splits bool.splits)

lemma loop_body_Next_state:
  "loop_body env self s e delay st = Next st' \<Longrightarrow>
   events st' = events st @ [Request (build_payload self s e (current_page st)), Sleep delay]
   \<and> current_page st' = current_page st + 1 \<and> 0 \<le> delay"
  by (auto simp: loop_body_def Let_def
           split: if_splits pyval.splits flow.splits sum.splits bool.splits)

lemma fetch_loop_rule:
  assumes run: "fetch_loop env self s e delay st = Some res"
    and init: "I st"
    and step: "\<And>st st'. I st \<Longrightarrow> loop_body env self s e delay st = Next st' \<Longrightarrow> I st'"
    and fin: "\<And>st r. I st \<Longrightarrow> loop_body env self s e delay st = Done r \<Longrightarrow> Q r"
  shows "Q res"
proof -
  let ?P = "\<lambda>env self s e delay st res.
        I st \<longrightarrow>
        (\<forall>st st'. I st \<longrightarrow> loop_body env self s e delay st = Next st' \<longrightarrow> I st') \<longrightarrow>
        (\<forall>st r. I st \<longrightarrow> loop_body env self s e delay st = Done r \<longrightarrow> Q r) \<longrightarrow> Q res"
  have "?P env self s e delay st res"
  proof (rule fetch_loop.raw_induct [where P = ?P, OF _ run])
    fix loop env self s e delay st res
    assume ih: "\<And>env self s e delay st res. loop env self s e delay st = Some res \<Longrightarrow>
                  ?P env self s e delay st res"
      and unfolded: "(case loop_body env self s e delay st of
                        Done r \<Rightarrow> Some r
                      | Next st' \<Rightarrow> loop env self s e delay st') = Some res"
    show "?P env self s e delay st res"
    proof (intro impI)
      assume i: "I st"
        and stp: "\<forall>st st'. I st \<longrightarrow> loop_body env self s e delay st = Next st' \<longrightarrow> I st'"
        and fn: "\<forall>st r. I st \<longrightarrow> loop_body env self s e delay st = Done r \<longrightarrow> Q r"
      show "Q res"
      proof (cases "loop_body env self s e delay st")
        case (Done r)
        with unfolded have "r = res" by simp
        with Done i fn show ?thesis by blast
      next
        case (Next st')
        with unfolded have "loop env self s e delay st' = Some res" by simp
        moreover from Next i stp have "I st'" by blast
        ultimately show ?thesis using ih stp fn by blast
      qed
    qed
  qed
  with init step fin show ?thesis by blast
qed

section \<open>Facts about one page\<close>

lemma process_permit_data_keys:
  "process_permit_data env x = Inr (Some r) \<Longrightarrow> map fst r = record_keys"
  by (auto simp: process_permit_data_def record_keys_def Let_def
           split: pyval.splits sum.splits if_splits)

lemma process_page_acc:
  "process_page env xs acc =
     (case process_page env xs [] of Inl e \<Rightarrow> Inl e | Inr r \<Rightarrow> Inr (acc @ r))"
proof (induction xs arbitrary: acc)
  case Nil
  show ?case by simp
next
  case (Cons x xs)
  show ?case
  proof (cases "process_permit_data env x")
    case (Inl e)
    then show ?thesis by simp
  next
    case (Inr processed)
    show ?thesis
    proof (cases processed)
      case None
      with Inr Cons.IH [of acc] show ?thesis by simp
    next
      case (Some p)
      show ?thesis
      proof (cases "p = []")
        case True
        with Inr Some Cons.IH [of acc] show ?thesis by simp
      next
        case False
        with Inr Some Cons.IH [of "acc @ [p]"] Cons.IH [of "[p]"] show ?thesis
          by (simp split: sum.splits)
      qed
    qed
  qed
qed

lemma process_page_all_pass:
  "\<forall>x \<in> set xs. \<exists>r. process_permit_data env x = Inr (Some r) \<Longrightarrow>
   \<exists>rs. process_page env xs acc = Inr (acc @ rs) \<and>
        map (process_permit_data env) xs = map (\<lambda>r. Inr (Some r)) rs"
proof (induction xs arbitrary: acc)
  case Nil
  show ?case by simp
next
  case (Cons x xs)
  from Cons.prems obtain r where r: "process_permit_data env x = Inr (Some r)" by auto
  then have ne: "r \<noteq> []" using process_permit_data_keys [OF r] by (auto simp: record_keys_def)
  from Cons.prems have "\<forall>x \<in> set xs. \<exists>r. process_permit_data env x = Inr (Some r)" by simp
  from Cons.IH [OF this, of "acc @ [r]"] obtain rs where
    rs: "process_page env xs (acc @ [r]) = Inr ((acc @ [r]) @ rs)"
        "map (process_permit_data env) xs = map (\<lambda>r. Inr (Some r)) rs" by blast
  have "process_page env (x # xs) acc = Inr (acc @ (r # rs))" using r ne rs(1) by simp
  moreover have "map (process_permit_data env) (x # xs) = map (\<lambda>r. Inr (Some r)) (r # rs)"
    using r rs(2) by simp
  ultimately show ?case by blast
qed

lemma process_page_keys:
  "process_page env xs acc = Inr rs \<Longrightarrow> \<forall>r \<in> set acc. map fst r = record_keys \<Longrightarrow>
   \<forall>r \<in> set rs. map fst r = record_keys"
proof (induction xs arbitrary: acc)
  case Nil
  then show ?case by simp
next
  case (Cons x xs)
  show ?case
  proof (cases "process_permit_data env x")
    case (Inl e)
    with Cons.prems show ?thesis by simp
  next
    case (Inr processed)
    show ?thesis
    proof (cases processed)
      case None
      with Inr Cons show ?thesis by simp
    next
      case (Some p)
      with Inr have "map fst p = record_keys" by (simp add: process_permit_data_keys)
      then have "\<forall>r \<in> set (acc @ [p]). map fst r = record_keys" using Cons.prems(2) by simp
      with Cons.IH [of "acc @ [p]" ] Cons.IH [of acc] Cons.prems Inr Some show ?thesis
        by (simp split: if_splits)
    qed
  qed
qed

section \<open>Requests issued by a run\<close>

lemma requests_append: "requests (xs @ ys) = requests xs @ requests ys"
  by (induction xs rule: requests.induct) simp_all

lemma fetch_requests:
  assumes "fetch_permits_for_date_range env self s e delay = Some (evs, res)"
  shows "\<exists>m\<ge>1. requests evs = map (build_payload self s e) [1..m]"
proof -
  let ?I = "\<lambda>st. 1 \<le> current_page st \<and>
                 requests (events st) = map (build_payload self s e) [1..current_page st - 1]"
  let ?Q = "\<lambda>r. \<exists>m\<ge>1. requests (fst r) = map (build_payload self s e) [1..m]"
  have run: "fetch_loop env self s e delay initial_state = Some (evs, res)"
    using assms by (simp add: fetch_permits_for_date_range_def)
  have "?Q (evs, res)"
  proof (rule fetch_loop_rule [where I = ?I and Q = ?Q, OF run])
    show "?I initial_state" by (simp add: initial_state_def)
  next
    fix st st'
    assume i: "?I st" and nx: "loop_body env self s e delay st = Next st'"
    from loop_body_Next_state [OF nx] i show "?I st'"
      by (simp add: requests_append upto_rec2 [of 1 "current_page st"])
  next
    fix st r
    assume i: "?I st" and dn: "loop_body env self s e delay st = Done r"
    obtain evs' res' where r: "r = (evs', res')" by (cases r)
    from loop_body_Done_events [OF dn [unfolded r]] i
    have "requests evs' = map (build_payload self s e) [1..current_page st]"
      by (simp add: requests_append upto_rec2 [of 1 "current_page st"])
    with i r show "?Q r" by auto
  qed
  then show ?thesis by simp
qed

lemma request_fields_build_payload:
  "request_fields self s e n (build_payload self s e n)"
  by (simp add: request_fields_def build_payload_def)

lemma nth_of_pages:
  "i < length [1..m] \<Longrightarrow> map f [1..m] ! i = f (int i + 1)"
  by (simp add: nth_upto add.commute)

section \<open>Key structure of the records\<close>

lemma loop_body_Next_permits:
  "loop_body env self s e delay st = Next st' \<Longrightarrow>
   \<exists>items. process_page env items (all_permits st) = Inr (all_permits st')"
  by (auto simp: loop_body_def Let_def
           split: if_splits pyval.splits flow.splits sum.splits bool.splits)

lemma loop_body_Done_permits:
  "loop_body env self s e delay st = Done (evs, Inr permits) \<Longrightarrow>
   permits = all_permits st \<or> (\<exists>items. process_page env items (all_permits st) = Inr permits)"
  by (auto simp: loop_body_def Let_def
           split: if_splits pyval.splits flow.splits sum.splits bool.splits)

lemma fetch_record_keys:
  assumes "fetch_permits_for_date_range env self s e delay = Some (evs, Inr permits)"
  shows "\<forall>r \<in> set permits. map fst r = record_keys"
proof -
  let ?I = "\<lambda>st. \<forall>r \<in> set (all_permits st). map fst r = record_keys"
  let ?Q = "\<lambda>res :: fetch_result.
              \<forall>ps. snd res = Inr ps \<longrightarrow> (\<forall>r \<in> set ps. map fst r = record_keys)"
  have run: "fetch_loop env self s e delay initial_state = Some (evs, Inr permits)"
    using assms by (simp add: fetch_permits_for_date_range_def)
  have "?Q (evs, Inr permits)"
  proof (rule fetch_loop_rule [where I = ?I and Q = ?Q, OF run])
    show "?I initial_state" by (simp add: initial_state_def)
  next
    fix st st'
    assume i: "?I st" and nx: "loop_body env self s e delay st = Next st'"
    from loop_body_Next_permits [OF nx] obtain items where
      "process_page env items (all_permits st) = Inr (all_permits st')" by blast
    from process_page_keys [OF this i] show "?I st'" .
  next
    fix st r
    assume i: "?I st" and dn: "loop_body env self s e delay st = Done r"
    show "?Q r"
    proof (intro allI impI)
      fix ps
      assume "snd r = Inr ps"
      with dn have "loop_body env self s e delay st = Done (fst r, Inr ps)"
        by (cases r) simp
      from loop_body_Done_permits [OF this] i process_page_keys
      show "\<forall>r \<in> set ps. map fst r = record_keys" by blast
    qed
  qed
  then show ?thesis by simp
qed

lemma dict_get_own_keys:
  "distinct (map fst r) \<Longrightarrow> map (\<lambda>k. dict_get r k dflt) (map fst r) = map snd r"
proof (induction r)
  case Nil
  show ?case by simp
next
  case (Cons kv r)
  obtain k v where kv: "kv = (k, v)" by (cases kv)
  from Cons.prems kv have fresh: "k \<notin> fst ` set r" and dist: "distinct (map fst r)" by auto
  have "map (\<lambda>k'. dict_get ((k, v) # r) k' dflt) (map fst r) =
        map (\<lambda>k'. dict_get r k' dflt) (map fst r)"
    using fresh by (intro map_cong refl) (auto simp: dict_get_def)
  with Cons.IH [OF dist] kv show ?case by (simp add: dict_get_def)
qed

lemma dict_to_list_own_keys:
  "map fst r = record_keys \<Longrightarrow> dict_to_list record_keys r = Some (map snd r)"
proof -
  assume keys: "map fst r = record_keys"
  have "distinct record_keys" by (simp add: record_keys_def)
  with keys have "distinct (map fst r)" by simp
  from dict_get_own_keys [OF this, of "PStr []"] keys show ?thesis
    by (simp add: dict_to_list_def)
qed

lemma writerows_own_keys:
  "\<forall>r \<in> set rs. map fst r = record_keys \<Longrightarrow>
   writerows record_keys rs = Some (map (map snd) rs)"
  by (induction rs) (simp_all add: dict_to_list_own_keys)

lemma save_to_csv_own_keys:
  "\<forall>r \<in> set rs. map fst r = record_keys \<Longrightarrow> rs \<noteq> [] \<Longrightarrow>
   save_to_csv rs = Written record_keys (map (map snd) rs)"
  using writerows_own_keys [of rs] by (cases rs) (simp_all add: save_to_csv_def)

section \<open>States reached after whole pages\<close>

lemma page_fetch_failed_None:
  "page_fetch_failed (session_post self payload) \<Longrightarrow> make_request self payload = PNone"
  by (cases "session_post self payload") (auto simp: make_request_def)

lemma loop_body_failed:
  "make_request self (build_payload self s e (current_page st)) = PNone \<Longrightarrow>
   loop_body env self s e delay st =
     Done (events st @ [Request (build_payload self s e (current_page st))],
           Inr (all_permits st))"
  by (simp add: loop_body_def Let_def)

lemma loop_body_Next_page_permits:
  assumes "loop_body env self s e delay st = Next st'"
  shows "all_permits st' = all_permits st @ page_permits env self s e (current_page st)"
proof -
  from assms obtain d items where
    d: "make_request self (build_payload self s e (current_page st)) = PDict d"
    and it: "py_iter (dict_get d ''Data'' (PList [])) = Inr items"
    and pp: "process_page env items (all_permits st) = Inr (all_permits st')"
    by (auto simp: loop_body_def Let_def
             split: if_splits pyval.splits flow.splits sum.splits bool.splits)
  from pp process_page_acc [of env items "all_permits st"]
  obtain r where r: "process_page env items [] = Inr r" "all_permits st' = all_permits st @ r"
    by (auto split: sum.splits)
  from d it r show ?thesis by (simp add: page_permits_def)
qed

lemma run_pages_fetch_loop:
  "run_pages env self s e delay k = Some st \<Longrightarrow>
   fetch_loop env self s e delay initial_state = fetch_loop env self s e delay st"
proof (induction k arbitrary: st)
  case 0
  then show ?case by simp
next
  case (Suc k)
  from Suc.prems obtain st0 where
    st0: "run_pages env self s e delay k = Some st0"
    and nx: "loop_body env self s e delay st0 = Next st"
    by (auto split: option.splits loop_step.splits)
  from Suc.IH [OF st0] fetch_loop_Next [OF nx] show ?case by simp
qed

lemma run_pages_state:
  "run_pages env self s e delay k = Some st \<Longrightarrow>
   current_page st = int k + 1
   \<and> requests (events st) = map (build_payload self s e) [1..int k]
   \<and> all_permits st = concat (map (page_permits env self s e) [1..int k])"
proof (induction k arbitrary: st)
  case 0
  then show ?case by (auto simp: initial_state_def)
next
  case (Suc k)
  from Suc.prems obtain st0 where
    st0: "run_pages env self s e delay k = Some st0"
    and nx: "loop_body env self s e delay st0 = Next st"
    by (auto split: option.splits loop_step.splits)
  note ih = Suc.IH [OF st0]
  have up: "[1..int (Suc k)] = [1..int k] @ [int k + 1]"
    using upto_rec2 [of 1 "int k + 1"] by (simp add: add.commute)
  from loop_body_Next_state [OF nx] loop_body_Next_page_permits [OF nx] ih up
  show ?case by (simp add: requests_append)
qed

section \<open>Where the total comes from\<close>

lemma loop_body_Next_total:
  "loop_body env self s e delay st = Next st' \<Longrightarrow>
   (current_page st = 1 \<longrightarrow>
      (\<exists>d. make_request self (build_payload self s e 1) = PDict d
           \<and> total_records st' = dict_get d ''Total'' (PInt 0)))
   \<and> (current_page st \<noteq> 1 \<longrightarrow> total_records st' = total_records st)"
  by (auto simp: loop_body_def first_page_total_def Let_def
           split: if_splits pyval.splits flow.splits sum.splits bool.splits)

lemma run_pages_total:
  "run_pages env self s e delay k = Some st \<Longrightarrow> 0 < k \<Longrightarrow>
   \<exists>d. make_request self (build_payload self s e 1) = PDict d
       \<and> total_records st = dict_get d ''Total'' (PInt 0)"
proof (induction k arbitrary: st)
  case 0
  then show ?case by simp
next
  case (Suc k)
  from Suc.prems obtain st0 where
    st0: "run_pages env self s e delay k = Some st0"
    and nx: "loop_body env self s e delay st0 = Next st"
    by (auto split: option.splits loop_step.splits)
  from run_pages_state [OF st0] have page: "current_page st0 = int k + 1" by simp
  show ?case
  proof (cases k)
    case 0
    with page loop_body_Next_total [OF nx] show ?thesis by simp
  next
    case (Suc j)
    with page have "current_page st0 \<noteq> 1" by simp
    with loop_body_Next_total [OF nx] have "total_records st = total_records st0" by simp
    with Suc.IH [OF st0] Suc show ?thesis by simp
  qed
qed

lemma build_payload_page_size:
  "page_size self' = page_size self \<Longrightarrow> build_payload self' s e n = build_payload self s e n"
  by (simp add: build_payload_def)

lemma loop_body_same_but_total:
  assumes ps: "page_size self' = page_size self"
    and first: "make_request self' (build_payload self s e 1) =
                make_request self (build_payload self s e 1)"
    and later: "\<forall>n>1. same_but_total (make_request self' (build_payload self s e n))
                                      (make_request self (build_payload self s e n))"
    and page: "1 \<le> current_page st"
  shows "loop_body env self' s e delay st = loop_body env self s e delay st"
proof -
  have re: "reached_end self' = reached_end self"
  proof (intro ext)
    fix permits reported permit_list_json
    show "reached_end self' permits reported permit_list_json =
          reached_end self permits reported permit_list_json"
      unfolding reached_end_def ps ..
  qed
  have bp: "build_payload self' = build_payload self"
    by (intro ext) (simp add: build_payload_def ps)
  show ?thesis
  proof (cases "current_page st = 1")
    case True
    with first have "make_request self' (build_payload self s e (current_page st)) =
                     make_request self (build_payload self s e (current_page st))" by simp
    then show ?thesis unfolding loop_body_def bp re by simp
  next
    case False
    with page have gt: "1 < current_page st" by simp
    with later have same: "same_but_total
        (make_request self' (build_payload self s e (current_page st)))
        (make_request self (build_payload self s e (current_page st)))" by blast
    have no: "(current_page st = 1) = False" using False by simp
    show ?thesis
    proof (cases "make_request self' (build_payload self s e (current_page st))")
      case l: (PDict d')
      show ?thesis
      proof (cases "make_request self (build_payload self s e (current_page st))")
        case r: (PDict d)
        from same l r have "map_of d' ''Data'' = map_of d ''Data''" by simp
        then have dg: "dict_get d' ''Data'' (PList []) = dict_get d ''Data'' (PList [])"
          by (simp add: dict_get_def)
        show ?thesis unfolding loop_body_def bp re Let_def l r no pyval.case dg by simp
      qed (use same l in simp_all)
    next
      case l: PNone
      with same have "make_request self (build_payload self s e (current_page st)) = PNone"
        by simp
      with l show ?thesis unfolding loop_body_def bp re by simp
    next
      case l: (PBool b)
      with same have "make_request self (build_payload self s e (current_page st)) = PBool b"
        by simp
      with l show ?thesis unfolding loop_body_def bp re by simp
    next
      case l: (PInt n)
      with same have "make_request self (build_payload self s e (current_page st)) = PInt n"
        by simp
      with l show ?thesis unfolding loop_body_def bp re by simp
    next
      case l: (PFloat f)
      with same have "make_request self (build_payload self s e (current_page st)) = PFloat f"
        by simp
      with l show ?thesis unfolding loop_body_def bp re by simp
    next
      case l: (PStr x)
      with same have "make_request self (build_payload self s e (current_page st)) = PStr x"
        by simp
      with l show ?thesis unfolding loop_body_def bp re by simp
    next
      case l: (PList xs)
      with same have "make_request self (build_payload self s e (current_page st)) = PList xs"
        by simp
      with l show ?thesis unfolding loop_body_def bp re by simp
    qed
  qed
qed

lemma fetch_loop_simulates:
  assumes eq: "\<And>st. 1 \<le> current_page st \<Longrightarrow>
                 loop_body env self' s e delay st = loop_body env self s e delay st"
    and run: "fetch_loop env self' s e delay st0 = Some res"
    and page: "1 \<le> current_page st0"
  shows "fetch_loop env self s e delay st0 = Some res"
proof -
  let ?I = "\<lambda>st. 1 \<le> current_page st \<and>
                 fetch_loop env self s e delay st = fetch_loop env self s e delay st0"
  let ?Q = "\<lambda>r. fetch_loop env self s e delay st0 = Some r"
  show ?thesis
  proof (rule fetch_loop_rule [where I = ?I and Q = ?Q, OF run])
    show "?I st0" using page by simp
  next
    fix st st'
    assume i: "?I st" and nx: "loop_body env self' s e delay st = Next st'"
    with eq have "loop_body env self s e delay st = Next st'" by simp
    from fetch_loop_Next [OF this] loop_body_Next_state [OF nx] i show "?I st'" by simp
  next
    fix st r
    assume i: "?I st" and dn: "loop_body env self' s e delay st = Done r"
    with eq have "loop_body env self s e delay st = Done r" by simp
    from fetch_loop_Done [OF this] i show "?Q r" by simp
  qed
qed

lemma fetch_loop_same_steps:
  assumes eq: "\<And>st. 1 \<le> current_page st \<Longrightarrow>
                 loop_body env self' s e delay st = loop_body env self s e delay st"
    and page: "1 \<le> current_page st0"
  shows "fetch_loop env self' s e delay st0 = fetch_loop env self s e delay st0"
proof (cases "fetch_loop env self' s e delay st0")
  case (Some res)
  from fetch_loop_simulates [OF eq Some page] Some show ?thesis by simp
next
  case None
  show ?thesis
  proof (cases "fetch_loop env self s e delay st0")
    case (Some res)
    from fetch_loop_simulates [OF eq [symmetric] Some page] None show ?thesis by simp
  qed (use None in simp)
qed

section \<open>Decoding the date wrapper\<close>

lemma digit_not_wrapper: "is_digit c \<Longrightarrow> c \<notin> set ''/Date()''"
  by (auto simp: is_digit_def)

lemma digit_not_space: "is_digit c \<Longrightarrow> \<not> int_space c"
  by (auto simp: is_digit_def int_space_def)

lemma digit_not_sign: "is_digit c \<Longrightarrow> c \<noteq> CHR ''+'' \<and> c \<noteq> CHR ''-''"
  by (auto simp: is_digit_def)

lemma strip_both_ends_id:
  assumes "s \<noteq> []" and "\<not> P (hd s)" and "\<not> P (last s)"
  shows "rev (dropWhile P (rev (dropWhile P s))) = s"
proof -
  from assms(1,2) have "dropWhile P s = s" by (simp add: dropWhile_eq_self_iff)
  moreover from assms(1,3) have "dropWhile P (rev s) = rev s"
    by (simp add: dropWhile_eq_self_iff hd_rev)
  ultimately show ?thesis by simp
qed

lemma py_strip_wrapped:
  assumes "ds \<noteq> []" and "\<forall>c \<in> set ds. is_digit c"
  shows "py_strip ''/Date()'' (''/Date('' @ ds @ '')/'') = ds"
proof -
  let ?P = "\<lambda>c. c \<in> set ''/Date()''"
  from assms have h: "\<not> ?P (hd ds)" and l: "\<not> ?P (last ds)"
    using digit_not_wrapper by (meson hd_in_set last_in_set)+
  have "dropWhile ?P (''/Date('' @ ds @ '')/'') = dropWhile ?P (ds @ '')/'')"
    by (rule dropWhile_append2) auto
  also have "\<dots> = ds @ '')/''" using assms(1) h by (simp add: dropWhile_eq_self_iff)
  finally have front: "dropWhile ?P (''/Date('' @ ds @ '')/'') = ds @ '')/''" .
  have "dropWhile ?P (rev (ds @ '')/'')) = dropWhile ?P (rev ds)"
    by simp
  also have "\<dots> = rev ds"
    using assms(1) l by (simp add: dropWhile_eq_self_iff hd_rev)
  finally have "rev (dropWhile ?P (rev (ds @ '')/''))) = ds" by simp
  with front show ?thesis by (simp only: py_strip_def)
qed

lemma digits_acc_digits:
  "\<forall>c \<in> set ds. is_digit c \<Longrightarrow>
   digits_acc a ds = Some (foldl (\<lambda>a c. 10 * a + digit_val c) a ds)"
  by (induction ds arbitrary: a) simp_all

lemma py_digits_digits:
  "ds \<noteq> [] \<Longrightarrow> \<forall>c \<in> set ds. is_digit c \<Longrightarrow> py_digits ds = Some (dec_value ds)"
  by (cases ds) (simp_all add: py_digits_def dec_value_def digits_acc_digits)

lemma py_int_digits:
  assumes "ds \<noteq> []" and "\<forall>c \<in> set ds. is_digit c"
  shows "py_int m ds =
         (if 0 < m \<and> m < length ds then Inl ValueError else Inr (dec_value ds))"
proof -
  from assms have "\<not> int_space (hd ds)" and "\<not> int_space (last ds)"
    using digit_not_space by (meson hd_in_set last_in_set)+
  with assms(1) have trim: "rev (dropWhile int_space (rev (dropWhile int_space ds))) = ds"
    by (rule strip_both_ends_id)
  from assms obtain c cs where ds: "ds = c # cs" and c: "is_digit c" by (cases ds) auto
  from assms(2) have all: "filter is_digit ds = ds" by simp
  from c digit_not_sign have sign: "(c = CHR ''+'' \<or> c = CHR ''-'') = False"
    and minus: "(c = CHR ''-'') = False" by auto
  have body: "(case ds of [] \<Rightarrow> ds | c # r \<Rightarrow> if c = CHR ''+'' \<or> c = CHR ''-'' then r else ds)
              = ds"
    unfolding ds list.case sign if_False ..
  have neg: "(case ds of [] \<Rightarrow> False | c # x \<Rightarrow> c = CHR ''-'') = False"
    unfolding ds list.case minus ..
  show ?thesis
    unfolding py_int_def trim Let_def body neg all py_digits_digits [OF assms] by simp
qed

lemma dec_value_zeros:
  "foldl (\<lambda>a c. 10 * a + digit_val c) a (replicate n (CHR ''0'')) = a * 10 ^ n"
  by (induction n arbitrary: a) (simp_all add: digit_val_def)

lemma parse_date_huge:
  "parse_date utc_host (PStr (''/Date(1'' @ replicate 400 (CHR ''0'') @ '')/'')) =
   Inl OverflowError"
proof -
  let ?ds = "CHR ''1'' # replicate 400 (CHR ''0'')"
  have ne: "?ds \<noteq> []" by simp
  have dg: "\<forall>c \<in> set ?ds. is_digit c" by (auto simp: is_digit_def)
  have one: "digit_val (CHR ''1'') = 1" by (simp add: digit_val_def)
  have val: "dec_value ?ds = 10 ^ 400"
    by (simp add: dec_value_def dec_value_zeros one)
  have big: "true_div_1000_overflows (10 ^ 400)"
    by (simp add: true_div_1000_overflows_def)
  have str: "''/Date(1'' @ replicate 400 (CHR ''0'') @ '')/'' = ''/Date('' @ ?ds @ '')/''"
    by simp
  have len: "length ?ds = 401" by simp
  have "parse_date_try utc_host (''/Date('' @ ?ds @ '')/'') = Inl OverflowError"
    unfolding parse_date_try_def py_strip_wrapped [OF ne dg] py_int_digits [OF ne dg] len val
    using big by (simp add: utc_host_def)
  then show ?thesis unfolding str parse_date_def by simp
qed

lemma process_permit_data_raises:
  "parse_date env (dict_get d ''IssuedDate'' PNone) = Inl err \<Longrightarrow>
   process_permit_data env (PDict d) = Inl err"
  by (simp add: process_permit_data_def Let_def)

lemma process_permit_data_validates:
  "parse_date env (dict_get d ''IssuedDate'' PNone) = Inr issued_date \<Longrightarrow>
   process_permit_data env (PDict d) =
     (if truthy (dict_get d ''TypeNumber'' PNone) \<and> truthy (dict_get d ''PermitAddress'' PNone)
      then Inr (Some [(''permit_number'', dict_get d ''TypeNumber'' PNone),
                      (''address'', dict_get d ''PermitAddress'' PNone),
                      (''contractor'', dict_get d ''ProfessionalName'' PNone),
                      (''issued_date'', issued_date),
                      (''permit_type'', dict_get d ''PermitType'' PNone),
                      (''status'', dict_get d ''Status'' PNone)])
      else Inr None)"
  by (simp add: process_permit_data_def Let_def)

section \<open>The claims\<close>

text \<open>
  C1. A range spanning two pages: page 1 holds \<^verbatim>\<open>pageSize\<close> raw records and reports
  \<^verbatim>\<open>Total\<close> = \<^verbatim>\<open>pageSize\<close> + k with 0 < k < \<^verbatim>\<open>pageSize\<close>, page 2 holds k raw records, and
  every record passes normalization. With a non-negative delay (the contract of the
  call) exactly two requests are issued, for page 1 and then page 2 with one pause
  between them, and the call returns the \<^verbatim>\<open>pageSize\<close> + k normalized records, those of
  page 1 first, each page in row order.
\<close>

theorem two_page_fetch:
  assumes "page_size self = int (length page1)"
    and "0 < length page2" and "length page2 < length page1"
    and "make_request self (build_payload self start_date_str end_date_str 1) = PDict d1"
    and "map_of d1 ''Data'' = Some (PList page1)"
    and "map_of d1 ''Total'' = Some (PInt (int (length page1) + int (length page2)))"
    and "make_request self (build_payload self start_date_str end_date_str 2) = PDict d2"
    and "map_of d2 ''Data'' = Some (PList page2)"
    and "\<forall>x \<in> set (page1 @ page2). \<exists>r. process_permit_data env x = Inr (Some r)"
    and "0 \<le> delay_seconds"
  shows "\<exists>permits.
           fetch_permits_for_date_range env self start_date_str end_date_str delay_seconds =
             Some ([Request (build_payload self start_date_str end_date_str 1),
                    Sleep delay_seconds,
                    Request (build_payload self start_date_str end_date_str 2)],
                   Inr permits)
           \<and> length permits = length page1 + length page2
           \<and> map (process_permit_data env) (page1 @ page2) = map (\<lambda>r. Inr (Some r)) permits"
proof -
  let ?p1 = "build_payload self start_date_str end_date_str 1"
  let ?p2 = "build_payload self start_date_str end_date_str 2"
  from assms(9) have pass1: "\<forall>x \<in> set page1. \<exists>r. process_permit_data env x = Inr (Some r)"
    and pass2: "\<forall>x \<in> set page2. \<exists>r. process_permit_data env x = Inr (Some r)" by auto
  from process_page_all_pass [OF pass1, of "[]"] obtain rs1 where
    rs1: "process_page env page1 [] = Inr rs1"
         "map (process_permit_data env) page1 = map (\<lambda>r. Inr (Some r)) rs1" by auto
  from process_page_all_pass [OF pass2, of rs1] obtain rs2 where
    rs2: "process_page env page2 rs1 = Inr (rs1 @ rs2)"
         "map (process_permit_data env) page2 = map (\<lambda>r. Inr (Some r)) rs2" by auto
  from rs1(2) have len1: "length rs1 = length page1" by (metis length_map)
  from rs2(2) have len2: "length rs2 = length page2" by (metis length_map)
  from assms(2,3) have ne1: "page1 \<noteq> []" and ne2: "page2 \<noteq> []" by auto
  let ?st1 = "\<lparr>all_permits = rs1, current_page = 2,
               total_records = PInt (int (length page1) + int (length page2)),
               events = [Request ?p1, Sleep delay_seconds]\<rparr>"
  have first: "first_page_total d1 (PList page1) =
               Proceed (PInt (int (length page1) + int (length page2)))"
  proof -
    have "0 < int (length page1) + int (length page2)" using assms(2) by linarith
    with assms(6) ne1 show ?thesis
      by (simp add: first_page_total_def dict_get_def Let_def)
  qed
  have end1: "reached_end self rs1 (PInt (int (length page1) + int (length page2)))
                (PList page1) = Inr False"
  proof -
    have "\<not> int (length page1) + int (length page2) \<le> int (length rs1)"
      using assms(2) len1 by linarith
    with assms(1) show ?thesis by (simp add: reached_end_def)
  qed
  have step1: "loop_body env self start_date_str end_date_str delay_seconds initial_state =
               Next ?st1"
    using assms(4,5,10) ne1 first rs1(1) end1
    by (simp add: loop_body_def initial_state_def dict_get_def Let_def)
  have end2: "reached_end self (rs1 @ rs2) (PInt (int (length page1) + int (length page2)))
                (PList page2) = Inr True"
    using len1 len2 by (simp add: reached_end_def)
  have step2: "loop_body env self start_date_str end_date_str delay_seconds ?st1 =
               Done ([Request ?p1, Sleep delay_seconds, Request ?p2], Inr (rs1 @ rs2))"
    using assms(7,8) ne2 rs2(1) end2
    by (simp add: loop_body_def dict_get_def Let_def)
  have "fetch_permits_for_date_range env self start_date_str end_date_str delay_seconds =
        Some ([Request ?p1, Sleep delay_seconds, Request ?p2], Inr (rs1 @ rs2))"
    unfolding fetch_permits_for_date_range_def
    by (simp only: fetch_loop_Next [OF step1] fetch_loop_Done [OF step2])
  moreover have "length (rs1 @ rs2) = length page1 + length page2"
    using len1 len2 by simp
  moreover have "map (process_permit_data env) (page1 @ page2) =
                 map (\<lambda>r. Inr (Some r)) (rs1 @ rs2)"
    using rs1(2) rs2(2) by simp
  ultimately show ?thesis by blast
qed

theorem two_page_fetch_witness:
  "page_size two_page_server = int (length [permit_a, permit_b])
   \<and> 0 < length [permit_c] \<and> length [permit_c] < length [permit_a, permit_b]
   \<and> make_request two_page_server
        (build_payload two_page_server ''03/27/2025'' ''04/26/2025'' 1) =
       PDict [(''Data'', PList [permit_a, permit_b]), (''Total'', PInt 3)]
   \<and> make_request two_page_server
        (build_payload two_page_server ''03/27/2025'' ''04/26/2025'' 2) =
       PDict [(''Data'', PList [permit_c]), (''Total'', PInt 7)]
   \<and> map (process_permit_data utc_host) [permit_a, permit_b, permit_c] =
       map (\<lambda>r. Inr (Some r)) [record_a, record_b, record_c]
   \<and> (\<exists>permits.
         fetch_permits_for_date_range utc_host two_page_server ''03/27/2025'' ''04/26/2025'' 1 =
           Some ([Request (build_payload two_page_server ''03/27/2025'' ''04/26/2025'' 1),
                  Sleep 1,
                  Request (build_payload two_page_server ''03/27/2025'' ''04/26/2025'' 2)],
                 Inr permits)
         \<and> length permits = length [permit_a, permit_b] + length [permit_c]
         \<and> map (process_permit_data utc_host) ([permit_a, permit_b] @ [permit_c]) =
             map (\<lambda>r. Inr (Some r)) permits)"
proof -
  let ?d1 = "[(''Data'', PList [permit_a, permit_b]), (''Total'', PInt 3)]"
  let ?d2 = "[(''Data'', PList [permit_c]), (''Total'', PInt 7)]"
  have h1: "page_size two_page_server = int (length [permit_a, permit_b])"
    by (simp add: two_page_server_def paged_server_def)
  have h2: "0 < length [permit_c]" by simp
  have h3: "length [permit_c] < length [permit_a, permit_b]" by simp
  have h4: "make_request two_page_server
              (build_payload two_page_server ''03/27/2025'' ''04/26/2025'' 1) = PDict ?d1"
    by (simp add: make_request_def two_page_server_def paged_server_def envelope_def
                  build_payload_def)
  have h5: "map_of ?d1 ''Data'' = Some (PList [permit_a, permit_b])" by simp
  have h6: "map_of ?d1 ''Total'' =
            Some (PInt (int (length [permit_a, permit_b]) + int (length [permit_c])))"
    by simp
  have h7: "make_request two_page_server
              (build_payload two_page_server ''03/27/2025'' ''04/26/2025'' 2) = PDict ?d2"
    by (simp add: make_request_def two_page_server_def paged_server_def envelope_def
                  build_payload_def)
  have h8: "map_of ?d2 ''Data'' = Some (PList [permit_c])" by simp
  have norm: "map (process_permit_data utc_host) [permit_a, permit_b, permit_c] =
              map (\<lambda>r. Inr (Some r)) [record_a, record_b, record_c]"
    by code_simp
  then have h9: "\<forall>x \<in> set ([permit_a, permit_b] @ [permit_c]).
                   \<exists>r. process_permit_data utc_host x = Inr (Some r)"
    by simp
  have h10: "(0::int) \<le> 1" by simp
  note concl = two_page_fetch [OF h1 h2 h3 h4 h5 h6 h7 h8 h9 h10]
  from h1 h2 h3 h4 h7 norm concl show ?thesis by (intro conjI)
qed

text \<open>
  C2. Let the loop have taken \<open>k\<close> whole pages (state \<open>st\<close>) and let the request for page
  \<open>k + 1\<close> fail, by a transport failure, a status from 400 to 599 or a body that is not
  JSON. Then the call returns normally; that request is the last event of the trace, so
  nothing is retried and pages 1 to \<open>k + 1\<close> were each requested once; and the list
  returned is the one accumulated so far, which is the concatenation of the normalized
  records of pages 1 to \<open>k\<close>. No exception escapes. (The statement covers \<open>k = 0\<close>, a
  failure on page 1, as well as the claim's case \<open>k > 0\<close>.)
\<close>

theorem failed_page_returns_earlier_pages:
  assumes "run_pages env self start_date_str end_date_str delay_seconds k = Some st"
    and "page_fetch_failed
           (session_post self (build_payload self start_date_str end_date_str (int k + 1)))"
  shows "fetch_permits_for_date_range env self start_date_str end_date_str delay_seconds =
           Some (events st @ [Request (build_payload self start_date_str end_date_str (int k + 1))],
                 Inr (all_permits st))
       \<and> all_permits st =
           concat (map (page_permits env self start_date_str end_date_str) [1..int k])
       \<and> requests (events st @
                    [Request (build_payload self start_date_str end_date_str (int k + 1))]) =
           map (build_payload self start_date_str end_date_str) [1..int k + 1]"
proof -
  note st = run_pages_state [OF assms(1)]
  from page_fetch_failed_None [OF assms(2)] st
  have "make_request self (build_payload self start_date_str end_date_str (current_page st)) =
        PNone" by simp
  from fetch_loop_Done [OF loop_body_failed [OF this]] run_pages_fetch_loop [OF assms(1)] st
  have "fetch_permits_for_date_range env self start_date_str end_date_str delay_seconds =
           Some (events st @ [Request (build_payload self start_date_str end_date_str (int k + 1))],
                 Inr (all_permits st))"
    by (simp add: fetch_permits_for_date_range_def)
  moreover have "requests (events st @
                    [Request (build_payload self start_date_str end_date_str (int k + 1))]) =
           map (build_payload self start_date_str end_date_str) [1..int k + 1]"
    using st upto_rec2 [of 1 "int k + 1"] by (simp add: requests_append)
  ultimately show ?thesis using st by simp
qed

theorem failed_page_returns_earlier_pages_witness:
  "run_pages utc_host failing_server ''03/27/2025'' ''04/26/2025'' 1 (Suc 0) =
     Some \<lparr>all_permits = [record_a, record_b], current_page = 2, total_records = PInt 3,
           events = [Request (build_payload failing_server ''03/27/2025'' ''04/26/2025'' 1),
                     Sleep 1]\<rparr>
   \<and> page_fetch_failed
       (session_post failing_server
          (build_payload failing_server ''03/27/2025'' ''04/26/2025'' (int (Suc 0) + 1)))
   \<and> fetch_permits_for_date_range utc_host failing_server ''03/27/2025'' ''04/26/2025'' 1 =
       Some ([Request (build_payload failing_server ''03/27/2025'' ''04/26/2025'' 1), Sleep 1,
              Request (build_payload failing_server ''03/27/2025'' ''04/26/2025'' 2)],
             Inr [record_a, record_b])
   \<and> [record_a, record_b] =
       concat (map (page_permits utc_host failing_server ''03/27/2025'' ''04/26/2025'')
                 [1..int (Suc 0)])"
proof -
  have h1: "run_pages utc_host failing_server ''03/27/2025'' ''04/26/2025'' 1 (Suc 0) =
     Some \<lparr>all_permits = [record_a, record_b], current_page = 2, total_records = PInt 3,
           events = [Request (build_payload failing_server ''03/27/2025'' ''04/26/2025'' 1),
                     Sleep 1]\<rparr>"
    by code_simp
  have h2: "page_fetch_failed
       (session_post failing_server
          (build_payload failing_server ''03/27/2025'' ''04/26/2025'' (int (Suc 0) + 1)))"
    by (simp add: failing_server_def paged_server_def build_payload_def)
  from failed_page_returns_earlier_pages [OF h1 h2] h1 h2 show ?thesis by simp
qed

text \<open>
  C3 (the code at the failing input). A record with both required fields, and a record
  without \<^verbatim>\<open>TypeNumber\<close>, each with a JSON number as \<^verbatim>\<open>IssuedDate\<close>: line 87 decodes the
  date before line 92 validates, \<^verbatim>\<open>startswith\<close> does not exist on an int, and the
  AttributeError leaves \<^verbatim>\<open>_process_permit_data\<close>: neither a record nor \<^verbatim>\<open>None\<close> is
  returned.
\<close>

theorem numeric_date_preempts_validation:
  "process_permit_data env
     (PDict [(''TypeNumber'', PStr ''RPV 24001''),
             (''PermitAddress'', PStr ''200 W WASHINGTON ST''),
             (''IssuedDate'', PInt 1700000000000)]) = Inl AttributeError
   \<and> process_permit_data env
       (PDict [(''PermitAddress'', PStr ''200 W WASHINGTON ST''),
               (''IssuedDate'', PInt 1700000000000)]) = Inl AttributeError"
  by (simp add: process_permit_data_def parse_date_def dict_get_def)

theorem numeric_date_preempts_validation_witness:
  "process_permit_data utc_host
     (PDict [(''TypeNumber'', PStr ''RPV 24001''),
             (''PermitAddress'', PStr ''200 W WASHINGTON ST''),
             (''IssuedDate'', PInt 1700000000000)]) = Inl AttributeError
   \<and> process_permit_data utc_host
       (PDict [(''PermitAddress'', PStr ''200 W WASHINGTON ST''),
               (''IssuedDate'', PInt 1700000000000)]) = Inl AttributeError"
  by (rule numeric_date_preempts_validation [of utc_host])




text \<open>
  C5 (the code at the failing input). A record with both required fields whose
  \<^verbatim>\<open>IssuedDate\<close> is a well wrapped str of 401 digits: \<^verbatim>\<open>int\<close> succeeds, the division by
  1000 raises OverflowError, which the handler of line 69 does not catch. The same
  record with the JSON value \<^verbatim>\<open>true\<close> as date raises AttributeError on line 63.
\<close>

theorem normalizer_raises_on_date:
  "process_permit_data utc_host
     (PDict [(''TypeNumber'', PStr ''RPV 24001''),
             (''PermitAddress'', PStr ''200 W WASHINGTON ST''),
             (''IssuedDate'', PStr (''/Date(1'' @ replicate 400 (CHR ''0'') @ '')/''))]) =
     Inl OverflowError
   \<and> process_permit_data env
       (PDict [(''TypeNumber'', PStr ''RPV 24001''),
               (''PermitAddress'', PStr ''200 W WASHINGTON ST''),
               (''IssuedDate'', PBool True)]) = Inl AttributeError"
proof -
  have "process_permit_data utc_host
     (PDict [(''TypeNumber'', PStr ''RPV 24001''),
             (''PermitAddress'', PStr ''200 W WASHINGTON ST''),
             (''IssuedDate'', PStr (''/Date(1'' @ replicate 400 (CHR ''0'') @ '')/''))]) =
     Inl OverflowError"
  proof (rule process_permit_data_raises)
    have "dict_get [(''TypeNumber'', PStr ''RPV 24001''),
                    (''PermitAddress'', PStr ''200 W WASHINGTON ST''),
                    (''IssuedDate'', PStr (''/Date(1'' @ replicate 400 (CHR ''0'') @ '')/''))]
            ''IssuedDate'' PNone =
          PStr (''/Date(1'' @ replicate 400 (CHR ''0'') @ '')/'')"
      by (simp add: dict_get_def)
    then show "parse_date utc_host
                 (dict_get [(''TypeNumber'', PStr ''RPV 24001''),
                            (''PermitAddress'', PStr ''200 W WASHINGTON ST''),
                            (''IssuedDate'',
                             PStr (''/Date(1'' @ replicate 400 (CHR ''0'') @ '')/''))]
                    ''IssuedDate'' PNone) = Inl OverflowError"
      by (simp only: parse_date_huge)
  qed
  moreover have "process_permit_data env
       (PDict [(''TypeNumber'', PStr ''RPV 24001''),
               (''PermitAddress'', PStr ''200 W WASHINGTON ST''),
               (''IssuedDate'', PBool True)]) = Inl AttributeError"
    by (simp add: process_permit_data_def parse_date_def dict_get_def)
  ultimately show ?thesis by simp
qed

theorem normalizer_raises_on_date_witness:
  "process_permit_data utc_host
     (PDict [(''TypeNumber'', PStr ''RPV 24001''),
             (''PermitAddress'', PStr ''200 W WASHINGTON ST''),
             (''IssuedDate'', PStr (''/Date(1'' @ replicate 400 (CHR ''0'') @ '')/''))]) =
     Inl OverflowError
   \<and> process_permit_data utc_host
       (PDict [(''TypeNumber'', PStr ''RPV 24001''),
               (''PermitAddress'', PStr ''200 W WASHINGTON ST''),
               (''IssuedDate'', PBool True)]) = Inl AttributeError"
  by (rule normalizer_raises_on_date [of utc_host])

text \<open>
  C6. When the envelope of the first page reports \<^verbatim>\<open>Total\<close> = 0, the call issues exactly
  one page request and returns the empty list, as a normal return and not as an
  exception, whatever the envelope's \<^verbatim>\<open>Data\<close> holds.
\<close>

theorem zero_total_single_request:
  assumes "make_request self (build_payload self start_date_str end_date_str 1) = PDict d"
    and "map_of d ''Total'' = Some (PInt 0)"
  shows "fetch_permits_for_date_range env self start_date_str end_date_str delay_seconds =
         Some ([Request (build_payload self start_date_str end_date_str 1)], Inr [])"
proof -
  have "loop_body env self start_date_str end_date_str delay_seconds initial_state =
        Done ([Request (build_payload self start_date_str end_date_str 1)], Inr [])"
    using assms
    by (simp add: loop_body_def initial_state_def first_page_total_def dict_get_def Let_def)
  then show ?thesis
    by (simp add: fetch_permits_for_date_range_def fetch_loop_Done)
qed

theorem zero_total_single_request_witness:
  "make_request empty_server (build_payload empty_server ''03/27/2025'' ''04/26/2025'' 1) =
     PDict [(''Data'', PList []), (''Total'', PInt 0)]
   \<and> map_of [(''Data'', PList []), (''Total'', PInt 0)] ''Total'' = Some (PInt 0)
   \<and> fetch_permits_for_date_range utc_host empty_server ''03/27/2025'' ''04/26/2025'' 1 =
       Some ([Request (build_payload empty_server ''03/27/2025'' ''04/26/2025'' 1)], Inr [])"
proof -
  have h1: "make_request empty_server (build_payload empty_server ''03/27/2025'' ''04/26/2025'' 1) =
     PDict [(''Data'', PList []), (''Total'', PInt 0)]"
    by (simp add: make_request_def empty_server_def paged_server_def envelope_def
                  build_payload_def)
  have h2: "map_of [(''Data'', PList []), (''Total'', PInt 0)] ''Total'' = Some (PInt 0)"
    by simp
  from zero_total_single_request [OF h1 h2, of utc_host 1] h1 h2 show ?thesis by simp
qed

text \<open>
  C7 (as amended). When page 1 holds exactly \<^verbatim>\<open>pageSize\<close> raw records, reports
  \<^verbatim>\<open>Total\<close> = \<^verbatim>\<open>pageSize\<close>, and every record passes normalization, the call issues
  exactly one request and returns the \<^verbatim>\<open>pageSize\<close> normalized records. The comparison
  with the total counts normalized records: when the normalizer drops some of the
  \<^verbatim>\<open>pageSize\<close> records (and the delay is non-negative), the first pass does not end the
  loop but goes on to page 2.
\<close>

theorem full_single_page:
  assumes "page_size self = int (length page1)"
    and "make_request self (build_payload self start_date_str end_date_str 1) = PDict d1"
    and "map_of d1 ''Data'' = Some (PList page1)"
    and "map_of d1 ''Total'' = Some (PInt (int (length page1)))"
  shows "((\<forall>x \<in> set page1. \<exists>r. process_permit_data env x = Inr (Some r)) \<longrightarrow>
          (\<exists>permits.
             fetch_permits_for_date_range env self start_date_str end_date_str delay_seconds =
               Some ([Request (build_payload self start_date_str end_date_str 1)], Inr permits)
             \<and> length permits = length page1
             \<and> map (process_permit_data env) page1 = map (\<lambda>r. Inr (Some r)) permits))
       \<and> (process_page env page1 [] = Inr kept \<and> length kept < length page1
            \<and> 0 \<le> delay_seconds \<longrightarrow>
          loop_body env self start_date_str end_date_str delay_seconds initial_state =
            Next \<lparr>all_permits = kept, current_page = 2,
                  total_records = PInt (int (length page1)),
                  events = [Request (build_payload self start_date_str end_date_str 1),
                            Sleep delay_seconds]\<rparr>)"
proof (intro conjI impI)
  let ?p1 = "build_payload self start_date_str end_date_str 1"
  assume pass: "\<forall>x \<in> set page1. \<exists>r. process_permit_data env x = Inr (Some r)"
  from process_page_all_pass [OF pass, of "[]"] obtain rs where
    rs: "process_page env page1 [] = Inr rs"
        "map (process_permit_data env) page1 = map (\<lambda>r. Inr (Some r)) rs" by auto
  from rs(2) have len: "length rs = length page1" by (metis length_map)
  have "loop_body env self start_date_str end_date_str delay_seconds initial_state =
        Done ([Request ?p1], Inr rs)"
  proof (cases "page1 = []")
    case True
    with rs(1) have "rs = []" by simp
    with True assms(2,3,4) show ?thesis
      by (simp add: loop_body_def initial_state_def dict_get_def first_page_total_def Let_def)
  next
    case False
    then have "0 < int (length page1)" by simp
    with False assms(4) have first: "first_page_total d1 (PList page1) =
                                     Proceed (PInt (int (length page1)))"
      by (simp add: first_page_total_def dict_get_def Let_def)
    have "reached_end self rs (PInt (int (length page1))) (PList page1) = Inr True"
      using len by (simp add: reached_end_def)
    with False assms(2,3) first rs(1) show ?thesis
      by (simp add: loop_body_def initial_state_def dict_get_def Let_def)
  qed
  then have "fetch_permits_for_date_range env self start_date_str end_date_str delay_seconds =
             Some ([Request ?p1], Inr rs)"
    by (simp add: fetch_permits_for_date_range_def fetch_loop_Done)
  with len rs(2) show "\<exists>permits.
             fetch_permits_for_date_range env self start_date_str end_date_str delay_seconds =
               Some ([Request ?p1], Inr permits)
             \<and> length permits = length page1
             \<and> map (process_permit_data env) page1 = map (\<lambda>r. Inr (Some r)) permits"
    by blast
next
  assume a: "process_page env page1 [] = Inr kept \<and> length kept < length page1
             \<and> 0 \<le> delay_seconds"
  then have ne: "page1 \<noteq> []" by auto
  then have "0 < int (length page1)" by simp
  with ne assms(4) have first: "first_page_total d1 (PList page1) =
                                Proceed (PInt (int (length page1)))"
    by (simp add: first_page_total_def dict_get_def Let_def)
  have "reached_end self kept (PInt (int (length page1))) (PList page1) = Inr False"
    using a assms(1) by (simp add: reached_end_def)
  with ne a assms(2,3) first
  show "loop_body env self start_date_str end_date_str delay_seconds initial_state =
        Next \<lparr>all_permits = kept, current_page = 2,
              total_records = PInt (int (length page1)),
              events = [Request (build_payload self start_date_str end_date_str 1),
                        Sleep delay_seconds]\<rparr>"
    by (simp add: loop_body_def initial_state_def dict_get_def Let_def)
qed

theorem full_single_page_witness:
  "page_size exact_server = int (length [permit_a, permit_b])
   \<and> make_request exact_server (build_payload exact_server ''03/27/2025'' ''04/26/2025'' 1) =
       PDict [(''Data'', PList [permit_a, permit_b]), (''Total'', PInt 2)]
   \<and> map (process_permit_data utc_host) [permit_a, permit_b] =
       map (\<lambda>r. Inr (Some r)) [record_a, record_b]
   \<and> (\<exists>permits.
         fetch_permits_for_date_range utc_host exact_server ''03/27/2025'' ''04/26/2025'' 1 =
           Some ([Request (build_payload exact_server ''03/27/2025'' ''04/26/2025'' 1)],
                 Inr permits)
         \<and> length permits = length [permit_a, permit_b]
         \<and> map (process_permit_data utc_host) [permit_a, permit_b] =
             map (\<lambda>r. Inr (Some r)) permits)
   \<and> page_size rejecting_server = int (length [PDict []])
   \<and> process_page utc_host [PDict []] [] = Inr []
   \<and> loop_body utc_host rejecting_server ''03/27/2025'' ''04/26/2025'' 1 initial_state =
       Next \<lparr>all_permits = [], current_page = 2,
             total_records = PInt (int (length [PDict []])),
             events = [Request (build_payload rejecting_server ''03/27/2025'' ''04/26/2025'' 1),
                       Sleep 1]\<rparr>"
proof -
  let ?d1 = "[(''Data'', PList [permit_a, permit_b]), (''Total'', PInt 2)]"
  let ?e1 = "[(''Data'', PList [PDict []]), (''Total'', PInt 1)]"
  have h1: "page_size exact_server = int (length [permit_a, permit_b])"
    by (simp add: exact_server_def paged_server_def)
  have h2: "make_request exact_server
              (build_payload exact_server ''03/27/2025'' ''04/26/2025'' 1) = PDict ?d1"
    by (simp add: make_request_def exact_server_def paged_server_def envelope_def
                  build_payload_def)
  have h3: "map_of ?d1 ''Data'' = Some (PList [permit_a, permit_b])" by simp
  have h4: "map_of ?d1 ''Total'' = Some (PInt (int (length [permit_a, permit_b])))" by simp
  have norm: "map (process_permit_data utc_host) [permit_a, permit_b] =
              map (\<lambda>r. Inr (Some r)) [record_a, record_b]"
    by code_simp
  then have pass: "\<forall>x \<in> set [permit_a, permit_b].
                     \<exists>r. process_permit_data utc_host x = Inr (Some r)"
    by simp
  have g1: "page_size rejecting_server = int (length [PDict []])"
    by (simp add: rejecting_server_def paged_server_def)
  have g2: "make_request rejecting_server
              (build_payload rejecting_server ''03/27/2025'' ''04/26/2025'' 1) = PDict ?e1"
    by (simp add: make_request_def rejecting_server_def paged_server_def envelope_def
                  build_payload_def)
  have g3: "map_of ?e1 ''Data'' = Some (PList [PDict []])" by simp
  have g4: "map_of ?e1 ''Total'' = Some (PInt (int (length [PDict []])))" by simp
  have kept: "process_page utc_host [PDict []] [] = Inr []"
    by (simp add: process_permit_data_def parse_date_def dict_get_def)
  have kept': "process_page utc_host [PDict []] [] = Inr [] \<and> length [] < length [PDict []]
               \<and> (0::int) \<le> 1"
    using kept by simp
  note a = full_single_page [where env = utc_host and delay_seconds = 1 and kept = "[]",
                             OF h1 h2 h3 h4, THEN conjunct1, THEN mp, OF pass]
  note b = full_single_page [where env = utc_host and delay_seconds = 1 and kept = "[]",
                             OF g1 g2 g3 g4, THEN conjunct2, THEN mp, OF kept']
  from h1 h2 norm a g1 kept b show ?thesis by (intro conjI)
qed

theorem full_single_page_counterexample:
  "page_size rejecting_server = int (length [PDict []])
   \<and> make_request rejecting_server
        (build_payload rejecting_server ''03/27/2025'' ''04/26/2025'' 1) =
       PDict [(''Data'', PList [PDict []]), (''Total'', PInt (int (length [PDict []])))]
   \<and> fetch_permits_for_date_range utc_host rejecting_server ''03/27/2025'' ''04/26/2025'' 1 =
       Some ([Request (build_payload rejecting_server ''03/27/2025'' ''04/26/2025'' 1),
              Sleep 1,
              Request (build_payload rejecting_server ''03/27/2025'' ''04/26/2025'' 2)],
             Inr [])"
proof -
  have "fetch_permits_for_date_range utc_host rejecting_server ''03/27/2025'' ''04/26/2025'' 1 =
       Some ([Request (build_payload rejecting_server ''03/27/2025'' ''04/26/2025'' 1),
              Sleep 1,
              Request (build_payload rejecting_server ''03/27/2025'' ''04/26/2025'' 2)],
             Inr [])"
    by code_simp
  then show ?thesis
    by (simp add: make_request_def rejecting_server_def paged_server_def envelope_def
                  build_payload_def)
qed

text \<open>
  C8. The total against which the loop compares is read once, on the pass for page 1:
  in every state reached after one or more whole pages, \<open>total_records\<close> is the
  \<^verbatim>\<open>Total\<close> entry of the first page's envelope, 0 when it has none. What the envelopes
  of later pages say is never read: two servers of the same page size that answer page 1
  alike, and whose answers to every later page are the same value or are both dicts with
  the same \<^verbatim>\<open>Data\<close>, give the same run.
\<close>

theorem total_captured_from_first_page:
  "(run_pages env self start_date_str end_date_str delay_seconds k = Some st \<and> 0 < k \<longrightarrow>
      (\<exists>d. make_request self (build_payload self start_date_str end_date_str 1) = PDict d
           \<and> total_records st = dict_get d ''Total'' (PInt 0)))
   \<and> (page_size self' = page_size self
       \<and> make_request self' (build_payload self start_date_str end_date_str 1) =
           make_request self (build_payload self start_date_str end_date_str 1)
       \<and> (\<forall>n>1. same_but_total
                   (make_request self' (build_payload self start_date_str end_date_str n))
                   (make_request self (build_payload self start_date_str end_date_str n))) \<longrightarrow>
      fetch_permits_for_date_range env self' start_date_str end_date_str delay_seconds =
      fetch_permits_for_date_range env self start_date_str end_date_str delay_seconds)"
proof (intro conjI impI)
  assume "run_pages env self start_date_str end_date_str delay_seconds k = Some st \<and> 0 < k"
  then show "\<exists>d. make_request self (build_payload self start_date_str end_date_str 1) = PDict d
                \<and> total_records st = dict_get d ''Total'' (PInt 0)"
    using run_pages_total by blast
next
  assume a: "page_size self' = page_size self
       \<and> make_request self' (build_payload self start_date_str end_date_str 1) =
           make_request self (build_payload self start_date_str end_date_str 1)
       \<and> (\<forall>n>1. same_but_total
                   (make_request self' (build_payload self start_date_str end_date_str n))
                   (make_request self (build_payload self start_date_str end_date_str n)))"
  have "\<And>st. 1 \<le> current_page st \<Longrightarrow>
          loop_body env self' start_date_str end_date_str delay_seconds st =
          loop_body env self start_date_str end_date_str delay_seconds st"
    using a by (intro loop_body_same_but_total) simp_all
  from fetch_loop_same_steps [OF this, of initial_state]
  show "fetch_permits_for_date_range env self' start_date_str end_date_str delay_seconds =
        fetch_permits_for_date_range env self start_date_str end_date_str delay_seconds"
    by (simp add: fetch_permits_for_date_range_def initial_state_def)
qed

theorem total_captured_from_first_page_witness:
  "run_pages utc_host two_page_server ''03/27/2025'' ''04/26/2025'' 1 (Suc 0) =
     Some \<lparr>all_permits = [record_a, record_b], current_page = 2, total_records = PInt 3,
           events = [Request (build_payload two_page_server ''03/27/2025'' ''04/26/2025'' 1),
                     Sleep 1]\<rparr>
   \<and> make_request two_page_server
        (build_payload two_page_server ''03/27/2025'' ''04/26/2025'' 1) =
       PDict [(''Data'', PList [permit_a, permit_b]), (''Total'', PInt 3)]
   \<and> page_size two_page_server_alt = page_size two_page_server
   \<and> make_request two_page_server_alt
        (build_payload two_page_server ''03/27/2025'' ''04/26/2025'' 1) =
       make_request two_page_server
        (build_payload two_page_server ''03/27/2025'' ''04/26/2025'' 1)
   \<and> same_but_total
         (make_request two_page_server_alt
            (build_payload two_page_server ''03/27/2025'' ''04/26/2025'' 2))
         (make_request two_page_server
            (build_payload two_page_server ''03/27/2025'' ''04/26/2025'' 2))
   \<and> make_request two_page_server_alt
        (build_payload two_page_server ''03/27/2025'' ''04/26/2025'' 2) \<noteq>
       make_request two_page_server
        (build_payload two_page_server ''03/27/2025'' ''04/26/2025'' 2)
   \<and> fetch_permits_for_date_range utc_host two_page_server_alt ''03/27/2025'' ''04/26/2025'' 1 =
       fetch_permits_for_date_range utc_host two_page_server ''03/27/2025'' ''04/26/2025'' 1"
proof -
  let ?st = "\<lparr>all_permits = [record_a, record_b], current_page = 2, total_records = PInt 3,
           events = [Request (build_payload two_page_server ''03/27/2025'' ''04/26/2025'' 1),
                     Sleep 1]\<rparr>"
  have h1: "run_pages utc_host two_page_server ''03/27/2025'' ''04/26/2025'' 1 (Suc 0) =
            Some ?st \<and> 0 < Suc 0"
    by code_simp
  have h2: "make_request two_page_server
        (build_payload two_page_server ''03/27/2025'' ''04/26/2025'' 1) =
       PDict [(''Data'', PList [permit_a, permit_b]), (''Total'', PInt 3)]"
    by (simp add: make_request_def two_page_server_def paged_server_def envelope_def
                  build_payload_def)
  have g1: "page_size two_page_server_alt = page_size two_page_server"
    by (simp add: two_page_server_alt_def two_page_server_def paged_server_def)
  have g2: "make_request two_page_server_alt
        (build_payload two_page_server ''03/27/2025'' ''04/26/2025'' 1) =
       make_request two_page_server
        (build_payload two_page_server ''03/27/2025'' ''04/26/2025'' 1)"
    by (simp add: make_request_def two_page_server_alt_def two_page_server_def
                  paged_server_def envelope_def build_payload_def)
  have g3: "\<forall>n>1. same_but_total
               (make_request two_page_server_alt
                  (build_payload two_page_server ''03/27/2025'' ''04/26/2025'' n))
               (make_request two_page_server
                  (build_payload two_page_server ''03/27/2025'' ''04/26/2025'' n))"
    by (simp add: make_request_def two_page_server_alt_def two_page_server_def
                  paged_server_def envelope_def build_payload_def)
  have g4: "make_request two_page_server_alt
        (build_payload two_page_server ''03/27/2025'' ''04/26/2025'' 2) \<noteq>
       make_request two_page_server
        (build_payload two_page_server ''03/27/2025'' ''04/26/2025'' 2)"
    by (simp add: make_request_def two_page_server_alt_def two_page_server_def
                  paged_server_def envelope_def build_payload_def)
  note inst = total_captured_from_first_page
      [where env = utc_host and self = two_page_server and self' = two_page_server_alt
         and start_date_str = "''03/27/2025''" and end_date_str = "''04/26/2025''"
         and delay_seconds = 1 and k = "Suc 0" and st = ?st]
  from inst [THEN conjunct1, THEN mp, OF h1] h2
  have tot: "total_records ?st = dict_get [(''Data'', PList [permit_a, permit_b]),
                                           (''Total'', PInt 3)] ''Total'' (PInt 0)"
    by simp
  from g1 g2 g3 have g: "page_size two_page_server_alt = page_size two_page_server
       \<and> make_request two_page_server_alt
            (build_payload two_page_server ''03/27/2025'' ''04/26/2025'' 1) =
           make_request two_page_server
            (build_payload two_page_server ''03/27/2025'' ''04/26/2025'' 1)
       \<and> (\<forall>n>1. same_but_total
                   (make_request two_page_server_alt
                      (build_payload two_page_server ''03/27/2025'' ''04/26/2025'' n))
                   (make_request two_page_server
                      (build_payload two_page_server ''03/27/2025'' ''04/26/2025'' n)))"
    by (intro conjI)
  note same = inst [THEN conjunct2, THEN mp, OF g]
  from h1 h2 g1 g2 g3 g4 same tot show ?thesis by (intro conjI) simp_all
qed

text \<open>
  C9. Every page request carries the payload of lines 125 to 145: the request at
  position \<open>i\<close> (counted from 0) has \<^verbatim>\<open>page\<close> = \<open>i + 1\<close>, \<^verbatim>\<open>pageSize\<close> = the configured
  page size, \<^verbatim>\<open>TempPermit\<close> = \<^verbatim>\<open>"Y"\<close>, \<^verbatim>\<open>SolarGreenAdaptive\<close> = \<^verbatim>\<open>"solar"\<close>, the caller's
  two dates, and the empty string in each of the thirteen other fields; there are no
  further fields. This holds for the requests in the trace of a call that has returned
  or raised, and for the requests issued up to any state the loop reaches, so also in a
  run that never ends.
\<close>

theorem request_payload_fields:
  "(fetch_permits_for_date_range env self start_date_str end_date_str delay_seconds =
      Some (evs, res) \<and> i < length (requests evs) \<longrightarrow>
    request_fields self start_date_str end_date_str (int i + 1) (requests evs ! i))
   \<and> (run_pages env self start_date_str end_date_str delay_seconds k = Some st
       \<and> j < length (requests (events st)) \<longrightarrow>
      request_fields self start_date_str end_date_str (int j + 1)
        (requests (events st) ! j))"
proof (intro conjI impI)
  assume a: "fetch_permits_for_date_range env self start_date_str end_date_str delay_seconds =
               Some (evs, res) \<and> i < length (requests evs)"
  with fetch_requests obtain m where
    m: "requests evs = map (build_payload self start_date_str end_date_str) [1..m]"
    by blast
  with a have "i < length [1..m]" by simp
  from nth_of_pages [OF this] m
  have "requests evs ! i = build_payload self start_date_str end_date_str (int i + 1)"
    by simp
  then show "request_fields self start_date_str end_date_str (int i + 1) (requests evs ! i)"
    by (simp only: request_fields_build_payload)
next
  assume b: "run_pages env self start_date_str end_date_str delay_seconds k = Some st
             \<and> j < length (requests (events st))"
  with run_pages_state have
    k: "requests (events st) = map (build_payload self start_date_str end_date_str) [1..int k]"
    by blast
  with b have "j < length [1..int k]" by simp
  from nth_of_pages [OF this] k
  have "requests (events st) ! j = build_payload self start_date_str end_date_str (int j + 1)"
    by simp
  then show "request_fields self start_date_str end_date_str (int j + 1)
               (requests (events st) ! j)"
    by (simp only: request_fields_build_payload)
qed

theorem request_payload_fields_witness:
  "fetch_permits_for_date_range utc_host two_page_server ''03/27/2025'' ''04/26/2025'' 1 =
     Some ([Request (build_payload two_page_server ''03/27/2025'' ''04/26/2025'' 1), Sleep 1,
            Request (build_payload two_page_server ''03/27/2025'' ''04/26/2025'' 2)],
           Inr [record_a, record_b, record_c])
   \<and> (1::nat) < length (requests
         [Request (build_payload two_page_server ''03/27/2025'' ''04/26/2025'' 1), Sleep 1,
          Request (build_payload two_page_server ''03/27/2025'' ''04/26/2025'' 2)])
   \<and> request_fields two_page_server ''03/27/2025'' ''04/26/2025'' 2
        (build_payload two_page_server ''03/27/2025'' ''04/26/2025'' 2)
   \<and> run_pages utc_host two_page_server ''03/27/2025'' ''04/26/2025'' 1 (Suc 0) =
       Some \<lparr>all_permits = [record_a, record_b], current_page = 2, total_records = PInt 3,
             events = [Request (build_payload two_page_server ''03/27/2025'' ''04/26/2025'' 1),
                       Sleep 1]\<rparr>
   \<and> request_fields two_page_server ''03/27/2025'' ''04/26/2025'' 1
        (build_payload two_page_server ''03/27/2025'' ''04/26/2025'' 1)"
proof -
  let ?evs = "[Request (build_payload two_page_server ''03/27/2025'' ''04/26/2025'' 1), Sleep 1,
               Request (build_payload two_page_server ''03/27/2025'' ''04/26/2025'' 2)]"
  let ?st = "\<lparr>all_permits = [record_a, record_b], current_page = 2, total_records = PInt 3,
             events = [Request (build_payload two_page_server ''03/27/2025'' ''04/26/2025'' 1),
                       Sleep 1]\<rparr>"
  have run: "fetch_permits_for_date_range utc_host two_page_server ''03/27/2025'' ''04/26/2025'' 1 =
             Some (?evs, Inr [record_a, record_b, record_c])"
    by code_simp
  have len: "(1::nat) < length (requests ?evs)" by simp
  have reach: "run_pages utc_host two_page_server ''03/27/2025'' ''04/26/2025'' 1 (Suc 0) =
               Some ?st"
    by code_simp
  have len0: "(0::nat) < length (requests (events ?st))" by simp
  from run len have a: "fetch_permits_for_date_range utc_host two_page_server
        ''03/27/2025'' ''04/26/2025'' 1 = Some (?evs, Inr [record_a, record_b, record_c])
      \<and> (1::nat) < length (requests ?evs)" by (intro conjI)
  from reach len0 have b: "run_pages utc_host two_page_server ''03/27/2025'' ''04/26/2025'' 1
        (Suc 0) = Some ?st \<and> (0::nat) < length (requests (events ?st))" by (intro conjI)
  from request_payload_fields [THEN conjunct1, THEN mp, OF a]
  have f2: "request_fields two_page_server ''03/27/2025'' ''04/26/2025'' 2
              (build_payload two_page_server ''03/27/2025'' ''04/26/2025'' 2)"
    by simp
  from request_payload_fields [THEN conjunct2, THEN mp, OF b]
  have f1: "request_fields two_page_server ''03/27/2025'' ''04/26/2025'' 1
              (build_payload two_page_server ''03/27/2025'' ''04/26/2025'' 1)"
    by simp
  from run len f2 reach f1 show ?thesis by (intro conjI)
qed

text \<open>
  C10. A record returned by \<^verbatim>\<open>_process_permit_data\<close> has exactly the six keys
  \<^verbatim>\<open>permit_number\<close>, \<^verbatim>\<open>address\<close>, \<^verbatim>\<open>contractor\<close>, \<^verbatim>\<open>issued_date\<close>,
  \<^verbatim>\<open>permit_type\<close>, \<^verbatim>\<open>status\<close>, in this order. So every record of a list returned by
  \<^verbatim>\<open>fetch_permits_for_date_range\<close> has this key list, and \<^verbatim>\<open>save_to_csv\<close> on a
  non-empty such list writes the six keys as header and, for every record, its six
  values in header order.
\<close>

theorem record_key_structure:
  "(process_permit_data env permit_json = Inr (Some processed) \<longrightarrow>
      map fst processed =
        [''permit_number'', ''address'', ''contractor'', ''issued_date'', ''permit_type'',
         ''status''])
   \<and> (fetch_permits_for_date_range env self start_date_str end_date_str delay_seconds =
         Some (evs, Inr permits) \<longrightarrow>
       (\<forall>r \<in> set permits. map fst r = record_keys)
       \<and> (permits \<noteq> [] \<longrightarrow>
            map fst (hd permits) = record_keys
            \<and> save_to_csv permits = Written record_keys (map (map snd) permits)))"
proof (intro conjI impI)
  assume "process_permit_data env permit_json = Inr (Some processed)"
  from process_permit_data_keys [OF this]
  show "map fst processed =
        [''permit_number'', ''address'', ''contractor'', ''issued_date'', ''permit_type'',
         ''status'']"
    by (simp add: record_keys_def)
next
  assume run: "fetch_permits_for_date_range env self start_date_str end_date_str delay_seconds =
               Some (evs, Inr permits)"
  from fetch_record_keys [OF run] show keys: "\<forall>r \<in> set permits. map fst r = record_keys" .
  assume ne: "permits \<noteq> []"
  from keys ne show "map fst (hd permits) = record_keys" by simp
  from save_to_csv_own_keys [OF keys ne]
  show "save_to_csv permits = Written record_keys (map (map snd) permits)" .
qed

theorem record_key_structure_witness:
  "process_permit_data utc_host permit_a = Inr (Some record_a)
   \<and> map fst record_a =
       [''permit_number'', ''address'', ''contractor'', ''issued_date'', ''permit_type'',
        ''status'']
   \<and> fetch_permits_for_date_range utc_host two_page_server ''03/27/2025'' ''04/26/2025'' 1 =
       Some ([Request (build_payload two_page_server ''03/27/2025'' ''04/26/2025'' 1), Sleep 1,
              Request (build_payload two_page_server ''03/27/2025'' ''04/26/2025'' 2)],
             Inr [record_a, record_b, record_c])
   \<and> save_to_csv [record_a, record_b, record_c] =
       Written record_keys (map (map snd) [record_a, record_b, record_c])"
proof -
  have one: "process_permit_data utc_host permit_a = Inr (Some record_a)"
    by code_simp
  have run: "fetch_permits_for_date_range utc_host two_page_server ''03/27/2025'' ''04/26/2025'' 1 =
       Some ([Request (build_payload two_page_server ''03/27/2025'' ''04/26/2025'' 1), Sleep 1,
              Request (build_payload two_page_server ''03/27/2025'' ''04/26/2025'' 2)],
             Inr [record_a, record_b, record_c])"
    by code_simp
  from record_key_structure [of utc_host permit_a record_a two_page_server
      "''03/27/2025''" "''04/26/2025''" 1 _ "[record_a, record_b, record_c]"] one run
  show ?thesis by simp
qed

end
